theory Spec2Isabelle
  imports Main "HOL-Library.Word"
begin

section \<open>kernel/power/suspend.c: suspend to RAM, standby and freeze\<close>

text \<open>
  A shallow embedding of \<^verbatim>\<open>kernel/power/suspend.c\<close>. The file sequences a system
  suspend: it calls into the notifier chain, the process freezer, the device
  power-management core, the CPU hotplug code, the syscore operations and the
  platform driver registered in \<^verbatim>\<open>suspend_ops\<close>, and it unwinds these steps through
  a chain of goto labels.

  The functions of the file are translated one by one. What they call outside the file
  is a collaborator: a call to it is recorded in a history (\<open>trace\<close>), together
  with the value it returned, and the value it returns is a function of the history so
  far. The goto labels are functions of their own, named after the label.
\<close>

subsection \<open>Constants of the headers\<close>

type_synonym suspend_state_t = int

text \<open>
  Modelled from the spec: the sleep states of \<^verbatim>\<open>include/linux/suspend.h\<close>, which is
  not part of the sources at hand. The spec orders them Inactive, Freeze, Standby,
  Suspend-to-RAM; \<^verbatim>\<open>pm_states\<close> is an array of \<^verbatim>\<open>PM_SUSPEND_MAX\<close> entries indexed by
  the four of them.
\<close>

definition PM_SUSPEND_ON :: suspend_state_t where "PM_SUSPEND_ON = 0"
definition PM_SUSPEND_FREEZE :: suspend_state_t where "PM_SUSPEND_FREEZE = 1"
definition PM_SUSPEND_STANDBY :: suspend_state_t where "PM_SUSPEND_STANDBY = 2"
definition PM_SUSPEND_MEM :: suspend_state_t where "PM_SUSPEND_MEM = 3"
definition PM_SUSPEND_MAX :: suspend_state_t where "PM_SUSPEND_MAX = 4"

text \<open>The error numbers of \<^verbatim>\<open>linux/errno.h\<close> that the file returns.\<close>

definition EPERM :: int where "EPERM = 1"
definition EBUSY :: int where "EBUSY = 16"
definition ENODEV :: int where "ENODEV = 19"
definition EINVAL :: int where "EINVAL = 22"
definition ENOSYS :: int where "ENOSYS = 38"

text \<open>The levels of \<^verbatim>\<open>pm_test_level\<close> (the enum of \<^verbatim>\<open>kernel/power/power.h\<close>).\<close>

datatype pm_test =
  TEST_NONE | TEST_CORE | TEST_CPUS | TEST_PLATFORM | TEST_DEVICES | TEST_FREEZER

datatype notifier_event = PM_SUSPEND_PREPARE | PM_POST_SUSPEND

subsection \<open>Collaborators and their history\<close>

text \<open>
  Every function the file calls and does not define. \<open>Ops_valid\<close> to
  \<open>Ops_recover\<close> are the callbacks of \<^verbatim>\<open>struct platform_suspend_ops\<close>;
  \<open>Wait_event\<close> is the \<^verbatim>\<open>wait_event\<close> of \<^verbatim>\<open>freeze_enter\<close>; \<open>Local_irq_disable\<close>
  and \<open>Local_irq_enable\<close> are the bodies of the default
  \<^verbatim>\<open>arch_suspend_disable_irqs\<close> and \<^verbatim>\<open>arch_suspend_enable_irqs\<close>.
\<close>

datatype call =
    Sys_sync
  | Pm_prepare_console
  | Pm_restore_console
  | Pm_notifier_call_chain notifier_event
  | Suspend_freeze_processes
  | Suspend_thaw_processes
  | Dpm_save_failed_step
  | Dpm_save_failed_errno int
  | Ops_valid suspend_state_t
  | Ops_begin suspend_state_t
  | Ops_prepare
  | Ops_prepare_late
  | Ops_enter suspend_state_t
  | Ops_wake
  | Ops_finish
  | Ops_suspend_again
  | Ops_end
  | Ops_recover
  | Dpm_suspend_start
  | Dpm_suspend_end
  | Dpm_resume_start
  | Dpm_resume_end
  | Mdelay nat
  | Wait_event
  | Disable_nonboot_cpus
  | Enable_nonboot_cpus
  | Local_irq_disable
  | Local_irq_enable
  | Syscore_suspend
  | Syscore_resume
  | Pm_wakeup_pending
  | Trace_machine_suspend suspend_state_t
  | Trace_machine_suspend_EXIT
  | Del_timer
  | Mod_timer
  | Suspend_console
  | Resume_console
  | Ftrace_stop
  | Ftrace_start
  | Suspend_test_start
  | Suspend_test_finish String.literal
  | Pm_restrict_gfp_mask
  | Pm_restore_gfp_mask
  | Asus_otg_host_power_off
  | Getnstimeofday
  | Rtc_time_to_tm

text \<open>An entry of the history: the call and the value it returned (0 for a void call).\<close>

type_synonym entry = "call \<times> int"

text \<open>
  The environment of a run: what each collaborator answers, given the history before
  the call; whether \<^verbatim>\<open>freeze_wake\<close> is called from interrupt context while the call
  that completes the given history runs; and whether the kernel is built with
  \<^verbatim>\<open>CONFIG_PM_DEBUG\<close>.
\<close>

record env =
  ret :: "call \<Rightarrow> entry list \<Rightarrow> int"
  irq_freeze_wake :: "entry list \<Rightarrow> bool"
  CONFIG_PM_DEBUG :: bool

subsection \<open>The state of the file\<close>

text \<open>
  \<^verbatim>\<open>struct platform_suspend_ops\<close>: a table of function pointers. A field is true when
  the pointer is not NULL; what the callback answers is the environment's.
\<close>

record platform_suspend_ops =
  has_valid :: bool
  has_begin :: bool
  has_prepare :: bool
  has_prepare_late :: bool
  has_enter :: bool
  has_wake :: bool
  has_finish :: bool
  has_suspend_again :: bool
  has_end :: bool
  has_recover :: bool

text \<open>
  The counters of \<^verbatim>\<open>suspend_stats\<close> that the file writes. They are C ints; the
  kernel is built with wrapping signed arithmetic, so they are 32-bit words.
\<close>

record suspend_stats_t =
  success :: "32 word"
  fail :: "32 word"
  failed_freeze :: "32 word"

text \<open>
  The global variables the file reads and writes, the interrupt flag of the boot CPU,
  the kernel log and the history of the collaborators. \<open>pm_mutex\<close> is true when the
  mutex is held; \<open>suspend_ops\<close> is \<open>None\<close> for a NULL pointer.
\<close>

record state =
  suspend_ops :: "platform_suspend_ops option"
  suspend_freeze_wake :: bool
  pm_mutex :: bool
  suspend_stats :: suspend_stats_t
  pm_test_level :: pm_test
  g_resume_status :: bool
  pm_stay_unattended_period :: int
  g_keycheck_abort :: int
  pm_pwrcs_ret :: int
  events_check_enabled :: bool
  irqs_disabled :: bool
  klog :: "String.literal list"
  trace :: "entry list"

text \<open>
  How a call ends: it returns a value, it sleeps in \<^verbatim>\<open>wait_event\<close> and is never
  woken, or the kernel stops (a NULL pointer is dereferenced, or \<^verbatim>\<open>BUG_ON\<close> fires).
  Each holds the state reached.
\<close>

datatype 'a outcome = Returned 'a state | Blocked state | Crashed state

definition obind :: "'a outcome \<Rightarrow> ('a \<Rightarrow> state \<Rightarrow> 'b outcome) \<Rightarrow> 'b outcome" where
  "obind m f = (case m of Returned x s \<Rightarrow> f x s | Blocked s \<Rightarrow> Blocked s | Crashed s \<Rightarrow> Crashed s)"

text \<open>The state an outcome holds.\<close>

fun final :: "'a outcome \<Rightarrow> state" where
  "final (Returned x s) = s"
| "final (Blocked s) = s"
| "final (Crashed s) = s"

text \<open>\<^verbatim>\<open>freeze_wake\<close>: sets the flag; \<^verbatim>\<open>wake_up\<close> lets a sleeper test it again.\<close>

definition freeze_wake :: "state \<Rightarrow> state" where
  "freeze_wake s = s\<lparr>suspend_freeze_wake := True\<rparr>"

text \<open>
  A call to a collaborator that returns a value: the answer is the environment's, the
  call is appended to the history, and \<^verbatim>\<open>freeze_wake\<close> runs if an interrupt calls it
  meanwhile.
\<close>

definition ext :: "env \<Rightarrow> call \<Rightarrow> state \<Rightarrow> int \<times> state" where
  "ext env c s =
     (let r = ret env c (trace s);
          s1 = s\<lparr>trace := trace s @ [(c, r)]\<rparr>
      in (r, if irq_freeze_wake env (trace s1) then freeze_wake s1 else s1))"

text \<open>A call to a void collaborator.\<close>

definition call :: "env \<Rightarrow> call \<Rightarrow> state \<Rightarrow> state" where
  "call env c s =
     (let s1 = s\<lparr>trace := trace s @ [(c, 0)]\<rparr>
      in if irq_freeze_wake env (trace s1) then freeze_wake s1 else s1)"

text \<open>\<^verbatim>\<open>printk\<close> and \<^verbatim>\<open>pr_info\<close>: the format string is appended to the kernel log.\<close>

definition printk :: "String.literal \<Rightarrow> state \<Rightarrow> state" where
  "printk m s = s\<lparr>klog := klog s @ [m]\<rparr>"

subsection \<open>The freeze wait\<close>

definition need_suspend_ops :: "suspend_state_t \<Rightarrow> bool" where
  "need_suspend_ops st = (st > PM_SUSPEND_FREEZE)"

definition freeze_begin :: "state \<Rightarrow> state" where
  "freeze_begin s = s\<lparr>suspend_freeze_wake := False\<rparr>"

text \<open>
  \<^verbatim>\<open>wait_event\<close> returns once the flag is true: at once if it is already, or when
  \<^verbatim>\<open>freeze_wake\<close> is called while the caller sleeps. Otherwise it sleeps for ever.
\<close>

definition freeze_enter :: "env \<Rightarrow> state \<Rightarrow> unit outcome" where
  "freeze_enter env s =
     (let s1 = call env Wait_event s
      in if suspend_freeze_wake s1 then Returned () s1 else Blocked s1)"

text \<open>
  \<^verbatim>\<open>lock_system_sleep\<close> takes \<open>pm_mutex\<close> with a blocking \<^verbatim>\<open>mutex_lock\<close>: where the
  mutex is held, and stays held, the caller sleeps.
\<close>

definition suspend_set_ops :: "platform_suspend_ops option \<Rightarrow> state \<Rightarrow> unit outcome" where
  "suspend_set_ops ops s =
     (if pm_mutex s then Blocked s
      else let s1 = s\<lparr>pm_mutex := True\<rparr>;
               s2 = s1\<lparr>suspend_ops := ops\<rparr>
           in Returned () (s2\<lparr>pm_mutex := False\<rparr>))"

definition valid_state :: "env \<Rightarrow> suspend_state_t \<Rightarrow> state \<Rightarrow> bool \<times> state" where
  "valid_state env st s =
     (if st = PM_SUSPEND_FREEZE then
        (if CONFIG_PM_DEBUG env \<and> pm_test_level s \<noteq> TEST_NONE
              \<and> pm_test_level s \<noteq> TEST_FREEZER \<and> pm_test_level s \<noteq> TEST_DEVICES
              \<and> pm_test_level s \<noteq> TEST_PLATFORM
         then (False, printk (STR ''Unsupported pm_test mode for freeze state, please choose none/freezer/devices/platform.'') s)
         else (True, s))
      else
        (case suspend_ops s of
           None \<Rightarrow> (False, s)
         | Some ops \<Rightarrow>
             if has_valid ops
             then (let (r, s1) = ext env (Ops_valid st) s in (r \<noteq> 0, s1))
             else (False, s)))"

definition suspend_valid_only_mem :: "suspend_state_t \<Rightarrow> int" where
  "suspend_valid_only_mem st = (if st = PM_SUSPEND_MEM then 1 else 0)"

definition suspend_test :: "env \<Rightarrow> pm_test \<Rightarrow> state \<Rightarrow> int \<times> state" where
  "suspend_test env level s =
     (if CONFIG_PM_DEBUG env \<and> pm_test_level s = level
      then (1, call env (Mdelay 5000) (printk (STR ''suspend debug: Waiting for 5 seconds.'') s))
      else (0, s))"

subsection \<open>Prepare\<close>

text \<open>The label \<^verbatim>\<open>Finish\<close> of \<^verbatim>\<open>suspend_prepare\<close>.\<close>

definition suspend_prepare_Finish :: "env \<Rightarrow> int \<Rightarrow> state \<Rightarrow> int \<times> state" where
  "suspend_prepare_Finish env error s =
     (let s1 = snd (ext env (Pm_notifier_call_chain PM_POST_SUSPEND) s);
          s2 = call env Pm_restore_console s1
      in (error, s2))"

definition suspend_prepare :: "env \<Rightarrow> suspend_state_t \<Rightarrow> state \<Rightarrow> int \<times> state" where
  "suspend_prepare env st s =
     (if need_suspend_ops st
          \<and> (case suspend_ops s of None \<Rightarrow> True | Some ops \<Rightarrow> \<not> has_enter ops)
      then (- EPERM, s)
      else
        let s1 = call env Pm_prepare_console s;
            (error, s2) = ext env (Pm_notifier_call_chain PM_SUSPEND_PREPARE) s1
        in if error \<noteq> 0 then suspend_prepare_Finish env error s2
           else
             let s3 = s2\<lparr>g_keycheck_abort := 0\<rparr>;
                 (error, s4) = ext env Suspend_freeze_processes s3
             in if error = 0 then (0, s4)
                else
                  let s5 = s4\<lparr>suspend_stats := (suspend_stats s4)
                              \<lparr>failed_freeze := failed_freeze (suspend_stats s4) + 1\<rparr>\<rparr>;
                      s6 = call env Dpm_save_failed_step s5
                  in suspend_prepare_Finish env error s6)"

subsection \<open>The low-level enter\<close>

text \<open>
  The test \<^verbatim>\<open>need_suspend_ops(state) && suspend_ops->f\<close>: it reads the field \<open>f\<close> of
  \<^verbatim>\<open>suspend_ops\<close> only when the state needs the platform driver, and then through the
  pointer, which must not be NULL.
\<close>

definition ops_has :: "(platform_suspend_ops \<Rightarrow> bool) \<Rightarrow> suspend_state_t \<Rightarrow> state \<Rightarrow> bool outcome" where
  "ops_has f st s =
     (if need_suspend_ops st
      then (case suspend_ops s of None \<Rightarrow> Crashed s | Some ops \<Rightarrow> Returned (f ops) s)
      else Returned False s)"

definition arch_suspend_disable_irqs :: "env \<Rightarrow> state \<Rightarrow> state" where
  "arch_suspend_disable_irqs env s = (call env Local_irq_disable s)\<lparr>irqs_disabled := True\<rparr>"

definition arch_suspend_enable_irqs :: "env \<Rightarrow> state \<Rightarrow> state" where
  "arch_suspend_enable_irqs env s = (call env Local_irq_enable s)\<lparr>irqs_disabled := False\<rparr>"

text \<open>The labels of \<^verbatim>\<open>suspend_enter\<close>, last first.\<close>

definition Platform_finish :: "env \<Rightarrow> suspend_state_t \<Rightarrow> int \<Rightarrow> bool \<Rightarrow> state \<Rightarrow> (int \<times> bool) outcome" where
  "Platform_finish env st error wakeup s =
     obind (ops_has has_finish st s) (\<lambda>b s1.
       Returned (error, wakeup) (if b then call env Ops_finish s1 else s1))"

definition Platform_wake :: "env \<Rightarrow> suspend_state_t \<Rightarrow> int \<Rightarrow> bool \<Rightarrow> state \<Rightarrow> (int \<times> bool) outcome" where
  "Platform_wake env st error wakeup s =
     obind (ops_has has_wake st s) (\<lambda>b s1.
       let s2 = (if b then call env Ops_wake s1 else s1);
           s3 = call env Dpm_resume_start s2
       in Platform_finish env st error wakeup s3)"

definition Enable_cpus :: "env \<Rightarrow> suspend_state_t \<Rightarrow> int \<Rightarrow> bool \<Rightarrow> state \<Rightarrow> (int \<times> bool) outcome" where
  "Enable_cpus env st error wakeup s =
     Platform_wake env st error wakeup (call env Enable_nonboot_cpus s)"

text \<open>
  \<^verbatim>\<open>suspend_ops->enter(state)\<close>: the pointer and the field are read without a test.
\<close>

definition ops_enter :: "env \<Rightarrow> suspend_state_t \<Rightarrow> state \<Rightarrow> int outcome" where
  "ops_enter env st s =
     (case suspend_ops s of
        None \<Rightarrow> Crashed s
      | Some ops \<Rightarrow>
          if has_enter ops then (let (r, s1) = ext env (Ops_enter st) s in Returned r s1)
          else Crashed s)"

text \<open>
  From \<^verbatim>\<open>arch_suspend_disable_irqs()\<close> to \<^verbatim>\<open>Enable_cpus\<close>: the boot CPU alone, with
  interrupts off.
\<close>

definition suspend_enter_core :: "env \<Rightarrow> suspend_state_t \<Rightarrow> bool \<Rightarrow> state \<Rightarrow> (int \<times> bool) outcome" where
  "suspend_enter_core env st wakeup s =
     (let s1 = arch_suspend_disable_irqs env s
      in if \<not> irqs_disabled s1 then Crashed s1
         else
           let (error, s2) = ext env Syscore_suspend s1
           in obind
                (if error = 0 then
                   (let (w, s3) = ext env Pm_wakeup_pending s2;
                        wakeup1 = (w \<noteq> 0);
                        (t, s4) = suspend_test env TEST_CORE s3
                    in obind
                         (if \<not> (t \<noteq> 0 \<or> wakeup1) then
                            obind (ops_enter env st s4) (\<lambda>e s5.
                              Returned (e, wakeup1) (s5\<lparr>events_check_enabled := False\<rparr>))
                          else Returned (error, wakeup1) s4)
                         (\<lambda>(error1, wakeup2) s6.
                            Returned (error1, wakeup2) (call env Syscore_resume s6)))
                 else Returned (error, wakeup) s2)
                (\<lambda>(error1, wakeup1) s7.
                   let s8 = arch_suspend_enable_irqs env s7
                   in if irqs_disabled s8 then Crashed s8
                      else Enable_cpus env st error1 wakeup1 s8))"

text \<open>From the test of \<^verbatim>\<open>TEST_PLATFORM\<close> on.\<close>

definition suspend_enter_sleep :: "env \<Rightarrow> suspend_state_t \<Rightarrow> int \<Rightarrow> bool \<Rightarrow> state \<Rightarrow> (int \<times> bool) outcome" where
  "suspend_enter_sleep env st error wakeup s =
     (let (t, s1) = suspend_test env TEST_PLATFORM s
      in if t \<noteq> 0 then Platform_wake env st error wakeup s1
         else if st = PM_SUSPEND_FREEZE then
           obind (freeze_enter env s1) (\<lambda>_ s2. Platform_wake env st error wakeup s2)
         else
           let (error1, s2) = ext env Disable_nonboot_cpus s1
           in if error1 \<noteq> 0 then Enable_cpus env st error1 wakeup s2
              else
                let (t1, s3) = suspend_test env TEST_CPUS s2
                in if t1 \<noteq> 0 then Enable_cpus env st error1 wakeup s3
                   else suspend_enter_core env st wakeup s3)"

text \<open>From \<^verbatim>\<open>dpm_suspend_end\<close> on.\<close>

definition suspend_enter_late :: "env \<Rightarrow> suspend_state_t \<Rightarrow> bool \<Rightarrow> state \<Rightarrow> (int \<times> bool) outcome" where
  "suspend_enter_late env st wakeup s =
     (let (error, s1) = ext env Dpm_suspend_end s
      in if error \<noteq> 0
         then Platform_finish env st error wakeup
                (printk (STR ''[PM] Some devices failed to power down'') s1)
         else
           obind (ops_has has_prepare_late st s1) (\<lambda>b s2.
             if b then
               (let (error1, s3) = ext env Ops_prepare_late s2
                in if error1 \<noteq> 0 then Platform_wake env st error1 wakeup s3
                   else suspend_enter_sleep env st error1 wakeup s3)
             else suspend_enter_sleep env st error wakeup s2))"

text \<open>
  \<^verbatim>\<open>suspend_enter(state, &wakeup)\<close>: the caller's \<^verbatim>\<open>wakeup\<close> goes in, and comes out
  with the error.
\<close>

definition suspend_enter :: "env \<Rightarrow> suspend_state_t \<Rightarrow> bool \<Rightarrow> state \<Rightarrow> (int \<times> bool) outcome" where
  "suspend_enter env st wakeup s =
     obind (ops_has has_prepare st s) (\<lambda>b s1.
       if b then
         (let (error, s2) = ext env Ops_prepare s1
          in if error \<noteq> 0 then Platform_finish env st error wakeup s2
             else suspend_enter_late env st wakeup s2)
       else suspend_enter_late env st wakeup s1)"

subsection \<open>Devices and the retry loop\<close>

text \<open>
  The \<^verbatim>\<open>do ... while\<close> loop of \<^verbatim>\<open>suspend_devices_and_enter\<close>. Nothing bounds the
  number of rounds: where \<^verbatim>\<open>suspend_again\<close> never answers false, the loop does not
  end, and the value is \<open>None\<close>.
\<close>

partial_function (option) suspend_enter_loop ::
  "env \<Rightarrow> suspend_state_t \<Rightarrow> bool \<Rightarrow> state \<Rightarrow> int outcome option" where
  "suspend_enter_loop env st wakeup s =
     (case suspend_enter env st wakeup s of
        Returned ew s1 \<Rightarrow>
          (if fst ew = 0 \<and> \<not> snd ew then
             (case ops_has has_suspend_again st s1 of
                Returned b s2 \<Rightarrow>
                  if b then
                    (if fst (ext env Ops_suspend_again s2) \<noteq> 0
                     then suspend_enter_loop env st (snd ew) (snd (ext env Ops_suspend_again s2))
                     else Some (Returned (fst ew) (snd (ext env Ops_suspend_again s2))))
                  else Some (Returned (fst ew) s2)
              | Blocked s2 \<Rightarrow> Some (Blocked s2)
              | Crashed s2 \<Rightarrow> Some (Crashed s2))
           else Some (Returned (fst ew) s1))
      | Blocked s1 \<Rightarrow> Some (Blocked s1)
      | Crashed s1 \<Rightarrow> Some (Crashed s1))"

text \<open>What follows a call that may not end: nothing, where it does not.\<close>

definition then_opt :: "'a outcome option \<Rightarrow> ('a \<Rightarrow> state \<Rightarrow> 'b outcome) \<Rightarrow> 'b outcome option" where
  "then_opt m f = map_option (\<lambda>r. obind r f) m"

text \<open>The labels of \<^verbatim>\<open>suspend_devices_and_enter\<close>.\<close>

definition Close :: "env \<Rightarrow> suspend_state_t \<Rightarrow> int \<Rightarrow> state \<Rightarrow> int outcome" where
  "Close env st error s =
     obind (ops_has has_end st s) (\<lambda>b s1.
       let s2 = (if b then call env Ops_end s1 else s1)
       in Returned error (call env Trace_machine_suspend_EXIT s2))"

definition Resume_devices :: "env \<Rightarrow> suspend_state_t \<Rightarrow> int \<Rightarrow> state \<Rightarrow> int outcome" where
  "Resume_devices env st error s =
     (let s1 = call env Suspend_test_start s;
          s2 = call env Dpm_resume_end s1;
          s3 = call env (Suspend_test_finish (STR ''resume devices'')) s2;
          s4 = call env Ftrace_start s3;
          s5 = call env Resume_console s4;
          s6 = printk (STR ''[PM]unattended_timer: mod_timer'') s5;
          s7 = call env Mod_timer s6;
          s8 = s7\<lparr>g_resume_status := True\<rparr>
      in Close env st error s8)"

definition Recover_platform :: "env \<Rightarrow> suspend_state_t \<Rightarrow> int \<Rightarrow> state \<Rightarrow> int outcome" where
  "Recover_platform env st error s =
     obind (ops_has has_recover st s) (\<lambda>b s1.
       Resume_devices env st error (if b then call env Ops_recover s1 else s1))"

text \<open>From \<^verbatim>\<open>del_timer\<close> on: the steps after \<^verbatim>\<open>begin\<close>.\<close>

definition suspend_devices :: "env \<Rightarrow> suspend_state_t \<Rightarrow> state \<Rightarrow> int outcome option" where
  "suspend_devices env st s =
     (let s1 = printk (STR ''[PM]unattended_timer: del_timer'') s;
          s2 = call env Del_timer s1;
          s3 = s2\<lparr>pm_stay_unattended_period := 0\<rparr>;
          s4 = call env Suspend_console s3;
          s5 = call env Ftrace_stop s4;
          s6 = call env Suspend_test_start s5;
          (error, s7) = ext env Dpm_suspend_start s6
      in if error \<noteq> 0
         then Some (Recover_platform env st error
                (printk (STR ''[PM] suspend_devices: Some devices failed to suspend'') s7))
         else
           let s8 = call env (Suspend_test_finish (STR ''suspend devices'')) s7;
               (t, s9) = suspend_test env TEST_DEVICES s8
           in if t \<noteq> 0 then Some (Recover_platform env st error s9)
              else then_opt (suspend_enter_loop env st False s9) (\<lambda>error1 s10.
                     Resume_devices env st error1 (s10\<lparr>pm_pwrcs_ret := 1\<rparr>)))"

definition suspend_devices_and_enter :: "env \<Rightarrow> suspend_state_t \<Rightarrow> state \<Rightarrow> int outcome option" where
  "suspend_devices_and_enter env st s =
     (if need_suspend_ops st \<and> suspend_ops s = None then Some (Returned (- ENOSYS) s)
      else
        let s1 = call env (Trace_machine_suspend st) s
        in case ops_has has_begin st s1 of
             Returned b s2 \<Rightarrow>
               if b then
                 (let (error, s3) = ext env (Ops_begin st) s2
                  in if error \<noteq> 0 then Some (Close env st error s3)
                     else suspend_devices env st s3)
               else suspend_devices env st s2
           | Blocked s2 \<Rightarrow> Some (Blocked s2)
           | Crashed s2 \<Rightarrow> Some (Crashed s2))"

subsection \<open>The orchestrator\<close>

definition suspend_finish :: "env \<Rightarrow> state \<Rightarrow> state" where
  "suspend_finish env s =
     (let s1 = call env Suspend_thaw_processes s;
          s2 = snd (ext env (Pm_notifier_call_chain PM_POST_SUSPEND) s1)
      in call env Pm_restore_console s2)"

text \<open>\<^verbatim>\<open>mutex_trylock\<close> answers 1 and takes the mutex when it is free, 0 when it is held.\<close>

definition mutex_trylock :: "state \<Rightarrow> int \<times> state" where
  "mutex_trylock s = (if pm_mutex s then (0, s) else (1, s\<lparr>pm_mutex := True\<rparr>))"

definition mutex_unlock :: "state \<Rightarrow> state" where
  "mutex_unlock s = s\<lparr>pm_mutex := False\<rparr>"

text \<open>The labels \<^verbatim>\<open>Unlock\<close> and \<^verbatim>\<open>Finish\<close> of \<^verbatim>\<open>enter_state\<close>.\<close>

definition enter_state_Unlock :: "int \<Rightarrow> state \<Rightarrow> int outcome" where
  "enter_state_Unlock error s = Returned error (mutex_unlock s)"

definition enter_state_Finish :: "env \<Rightarrow> int \<Rightarrow> state \<Rightarrow> int outcome" where
  "enter_state_Finish env error s =
     (let s1 = printk (STR ''[PM] enter_state: Finishing wakeup.'') s;
          s2 = suspend_finish env s1
      in enter_state_Unlock error s2)"

text \<open>
  From the lock to \<^verbatim>\<open>suspend_prepare\<close>: the reset of the freeze flag and the
  filesystem sync.
\<close>

definition enter_state_sync :: "env \<Rightarrow> suspend_state_t \<Rightarrow> state \<Rightarrow> state" where
  "enter_state_sync env st s =
     (let s1 = (if st = PM_SUSPEND_FREEZE then freeze_begin s else s);
          s2 = printk (STR ''[PM] enter_state: Syncing filesystems ...'') s1;
          s3 = call env Sys_sync s2;
          s4 = printk (STR ''[PM] Syncing done.'') s3
      in printk (STR ''[PM] enter_state: Preparing system for %s sleep'') s4)"

definition enter_state :: "env \<Rightarrow> suspend_state_t \<Rightarrow> state \<Rightarrow> int outcome option" where
  "enter_state env st s =
     (let (v, s1) = valid_state env st s
      in if \<not> v then Some (Returned (- ENODEV) s1)
         else
           let (l, s2) = mutex_trylock s1
           in if l = 0 then Some (Returned (- EBUSY) s2)
              else
                let s3 = enter_state_sync env st s2;
                    (error, s4) = suspend_prepare env st s3
                in if error \<noteq> 0 then Some (enter_state_Unlock error s4)
                   else
                     let (t, s5) = suspend_test env TEST_FREEZER s4
                     in if t \<noteq> 0 then Some (enter_state_Finish env error s5)
                        else
                          let s6 = printk (STR ''[PM] enter_state: suspend devices, entering %s sleep'') s5;
                              s7 = call env Pm_restrict_gfp_mask s6
                          in then_opt (suspend_devices_and_enter env st s7) (\<lambda>error1 s8.
                               enter_state_Finish env error1 (call env Pm_restore_gfp_mask s8)))"

definition pm_suspend_marker :: "env \<Rightarrow> state \<Rightarrow> state" where
  "pm_suspend_marker env s =
     (let s1 = call env Getnstimeofday s;
          s2 = call env Rtc_time_to_tm s1
      in printk (STR ''[PM] marker: suspend %s %d-%02d-%02d %02d:%02d:%02d.%09lu UTC'') s2)"

definition pm_suspend :: "env \<Rightarrow> suspend_state_t \<Rightarrow> state \<Rightarrow> int outcome option" where
  "pm_suspend env st s =
     (let s1 = printk (STR ''[PM] ++pm_suspend'') s
      in if st \<le> PM_SUSPEND_ON \<or> st \<ge> PM_SUSPEND_MAX then Some (Returned (- EINVAL) s1)
         else
           let s2 = call env Asus_otg_host_power_off s1;
               s3 = pm_suspend_marker env s2;
               s4 = printk (STR ''[PM] entering_state: %d'') s3
           in then_opt (enter_state env st s4) (\<lambda>error s5.
                let s6 =
                      (if error \<noteq> 0 then
                         (let s5a = s5\<lparr>suspend_stats := (suspend_stats s5)
                                     \<lparr>fail := fail (suspend_stats s5) + 1\<rparr>\<rparr>;
                              s5b = call env (Dpm_save_failed_errno error) s5a
                          in printk (STR ''[PM] pm_suspend failed, cnt: %d'') s5b)
                       else
                         (let s5a = s5\<lparr>suspend_stats := (suspend_stats s5)
                                     \<lparr>success := success (suspend_stats s5) + 1\<rparr>\<rparr>
                          in printk (STR ''[PM] pm_suspend success, cnt: %d'') s5a));
                    s7 = pm_suspend_marker env s6;
                    s8 = printk (STR ''[PM] --pm_suspend'') s7
                in Returned error s8))"

section \<open>Notions for the properties\<close>

subsection \<open>Reading a run\<close>

text \<open>The entries a run adds to the history, and the calls alone.\<close>

definition new_entries :: "state \<Rightarrow> state \<Rightarrow> entry list" where
  "new_entries s s' = drop (length (trace s)) (trace s')"

definition new_calls :: "state \<Rightarrow> state \<Rightarrow> call list" where
  "new_calls s s' = map fst (new_entries s s')"

text \<open>The value a run returns, if it returns, and the state it ends in, if it ends.\<close>

fun retval :: "'a outcome option \<Rightarrow> 'a option" where
  "retval (Some (Returned x s)) = Some x"
| "retval _ = None"


fun is_Blocked :: "'a outcome \<Rightarrow> bool" where
  "is_Blocked (Blocked s) = True"
| "is_Blocked _ = False"

fun is_Crashed :: "'a outcome \<Rightarrow> bool" where
  "is_Crashed (Crashed s) = True"
| "is_Crashed _ = False"

text \<open>
  The collaborators whose return value the file takes for an error code, and the errors
  among some entries, in the order they were reported.
\<close>

definition reports_error :: "call \<Rightarrow> bool" where
  "reports_error c =
     (case c of
        Ops_begin _ \<Rightarrow> True
      | Dpm_suspend_start \<Rightarrow> True
      | Ops_prepare \<Rightarrow> True
      | Dpm_suspend_end \<Rightarrow> True
      | Ops_prepare_late \<Rightarrow> True
      | Disable_nonboot_cpus \<Rightarrow> True
      | Syscore_suspend \<Rightarrow> True
      | Ops_enter _ \<Rightarrow> True
      | _ \<Rightarrow> False)"

definition errors :: "entry list \<Rightarrow> int list" where
  "errors evs = map snd (filter (\<lambda>e. reports_error (fst e) \<and> snd e \<noteq> 0) evs)"

definition errs_of :: "int \<Rightarrow> int list" where
  "errs_of e = (if e = 0 then [] else [e])"

text \<open>
  \<open>steps A es s s'\<close>: the state \<open>s'\<close> is reached from \<open>s\<close> by calls in \<open>A\<close>,
  which reported the errors \<open>es\<close>; the driver table, the mutex, the counters of
  successes and failures and the test level are as they were.
\<close>

definition steps :: "call set \<Rightarrow> int list \<Rightarrow> state \<Rightarrow> state \<Rightarrow> bool" where
  "steps A es s s' \<longleftrightarrow>
     suspend_ops s' = suspend_ops s \<and> pm_mutex s' = pm_mutex s \<and>
     success (suspend_stats s') = success (suspend_stats s) \<and>
     fail (suspend_stats s') = fail (suspend_stats s) \<and>
     pm_test_level s' = pm_test_level s \<and>
     (\<exists>evs. trace s' = trace s @ evs \<and> fst ` set evs \<subseteq> A \<and> errors evs = es)"

definition ok_result :: "call set \<Rightarrow> state \<Rightarrow> (int \<times> bool) outcome \<Rightarrow> bool" where
  "ok_result A s0 r = (case r of Returned ew s' \<Rightarrow> steps A (errs_of (fst ew)) s0 s' | _ \<Rightarrow> True)"

definition ok_int :: "call set \<Rightarrow> state \<Rightarrow> int outcome \<Rightarrow> bool" where
  "ok_int A s0 r = (case r of Returned e s' \<Rightarrow> steps A (errs_of e) s0 s' | _ \<Rightarrow> True)"

text \<open>The collaborators \<^verbatim>\<open>suspend_enter\<close> calls.\<close>

definition enter_calls :: "call set" where
  "enter_calls =
     {Ops_prepare, Dpm_suspend_end, Ops_prepare_late, Mdelay 5000, Wait_event,
      Disable_nonboot_cpus, Local_irq_disable, Syscore_suspend, Pm_wakeup_pending,
      Syscore_resume, Local_irq_enable, Enable_nonboot_cpus, Ops_wake,
      Dpm_resume_start, Ops_finish} \<union> range Ops_enter"

text \<open>The counters of successes and failures at the end of a run.\<close>

fun counters :: "'a outcome option \<Rightarrow> (32 word \<times> 32 word) option" where
  "counters (Some r) = Some (success (suspend_stats (final r)), fail (suspend_stats (final r)))"
| "counters None = None"

text \<open>The calls of a whole run that started with an empty history.\<close>

fun calls_of :: "'a outcome option \<Rightarrow> call list" where
  "calls_of (Some r) = map fst (trace (final r))"
| "calls_of None = []"

text \<open>
  The steps of the hardware entry: taking the other CPUs offline, disabling interrupts,
  suspending the core subsystems and the driver's \<^verbatim>\<open>enter\<close>.
\<close>

definition hw_entry :: "call \<Rightarrow> bool" where
  "hw_entry c =
     (case c of
        Disable_nonboot_cpus \<Rightarrow> True
      | Local_irq_disable \<Rightarrow> True
      | Syscore_suspend \<Rightarrow> True
      | Ops_enter _ \<Rightarrow> True
      | _ \<Rightarrow> False)"

text \<open>
  \<open>fzr s r\<close>: the run from \<open>s\<close> that ended as \<open>r\<close> did not stop the kernel and
  made no step of the hardware entry; if it sleeps for ever, the last thing it did is
  the \<^verbatim>\<open>wait_event\<close> of \<^verbatim>\<open>freeze_enter\<close>.
\<close>

definition fzr :: "state \<Rightarrow> 'a outcome \<Rightarrow> bool" where
  "fzr s r \<longleftrightarrow>
     \<not> is_Crashed r \<and>
     (\<exists>evs. trace (final r) = trace s @ evs \<and> filter hw_entry (map fst evs) = [] \<and>
        (is_Blocked r \<longrightarrow> evs \<noteq> [] \<and> fst (last evs) = Wait_event))"

text \<open>
  The call of a driver callback behind the test
  \<^verbatim>\<open>need_suspend_ops(state) && suspend_ops->f\<close>: the callback \<open>c\<close> when the test
  holds, nothing when it does not.
\<close>

definition cb_calls :: "(platform_suspend_ops \<Rightarrow> bool) \<Rightarrow> call \<Rightarrow> suspend_state_t \<Rightarrow> state \<Rightarrow> call list" where
  "cb_calls f c st s =
     (if need_suspend_ops st \<and> (case suspend_ops s of None \<Rightarrow> False | Some ops \<Rightarrow> f ops)
      then [c] else [])"

text \<open>The entries of calls that returned nothing, or 0.\<close>

definition void :: "call list \<Rightarrow> entry list" where
  "void cs = map (\<lambda>c. (c, 0)) cs"

text \<open>The two calls that only the innermost part of \<^verbatim>\<open>suspend_enter\<close> makes.\<close>

definition core_call :: "call \<Rightarrow> bool" where
  "core_call c = (case c of Pm_wakeup_pending \<Rightarrow> True | Ops_enter _ \<Rightarrow> True | _ \<Rightarrow> False)"





text \<open>
  The steps of \<^verbatim>\<open>suspend_devices_and_enter\<close> that come before the retry loop: the
  driver's \<^verbatim>\<open>begin\<close>, the console and trace quiesce, the device suspend.
\<close>

definition outer_step :: "call \<Rightarrow> bool" where
  "outer_step c =
     (case c of
        Ops_begin _ \<Rightarrow> True
      | Suspend_console \<Rightarrow> True
      | Ftrace_stop \<Rightarrow> True
      | Dpm_suspend_start \<Rightarrow> True
      | _ \<Rightarrow> False)"


subsection \<open>Example machines\<close>

text \<open>
  A machine just booted: no driver registered, the mutex free, nothing counted, no test
  level set, no history.
\<close>

definition boot_state :: state where
  "boot_state =
     \<lparr>suspend_ops = None, suspend_freeze_wake = False, pm_mutex = False,
      suspend_stats = \<lparr>success = 0, fail = 0, failed_freeze = 0\<rparr>,
      pm_test_level = TEST_NONE, g_resume_status = False, pm_stay_unattended_period = 0,
      g_keycheck_abort = 0, pm_pwrcs_ret = 0, events_check_enabled = False,
      irqs_disabled = False, klog = [], trace = []\<rparr>"

text \<open>A driver with every callback, and the machine with it registered.\<close>

definition full_ops :: platform_suspend_ops where
  "full_ops =
     \<lparr>has_valid = True, has_begin = True, has_prepare = True, has_prepare_late = True,
      has_enter = True, has_wake = True, has_finish = True, has_suspend_again = True,
      has_end = True, has_recover = True\<rparr>"

definition driver_state :: state where
  "driver_state = boot_state\<lparr>suspend_ops := Some full_ops\<rparr>"

text \<open>
  An environment where nothing fails and nothing happens: every collaborator answers 0,
  but the driver's \<^verbatim>\<open>valid\<close>, which accepts every state; no interrupt calls
  \<^verbatim>\<open>freeze_wake\<close>; the kernel has no \<^verbatim>\<open>CONFIG_PM_DEBUG\<close>.
\<close>

definition quiet_env :: env where
  "quiet_env =
     \<lparr>ret = (\<lambda>c t. case c of Ops_valid st \<Rightarrow> 1 | _ \<Rightarrow> 0),
      irq_freeze_wake = (\<lambda>t. False),
      CONFIG_PM_DEBUG = False\<rparr>"

text \<open>The same machines while another suspend holds the mutex.\<close>

definition busy_state :: state where
  "busy_state = boot_state\<lparr>pm_mutex := True\<rparr>"

definition busy_driver_state :: state where
  "busy_driver_state = driver_state\<lparr>pm_mutex := True\<rparr>"



text \<open>
  A kernel with \<^verbatim>\<open>CONFIG_PM_DEBUG\<close>, and the machine with a driver and the test level
  \<^verbatim>\<open>devices\<close> set.
\<close>

definition debug_env :: env where
  "debug_env = quiet_env\<lparr>CONFIG_PM_DEBUG := True\<rparr>"

definition test_devices_state :: state where
  "test_devices_state = driver_state\<lparr>pm_test_level := TEST_DEVICES\<rparr>"

text \<open>
  An environment where \<^verbatim>\<open>freeze_wake\<close> is called while \<^verbatim>\<open>freeze_enter\<close> waits, and
  nothing fails.
\<close>

definition wake_env :: env where
  "wake_env = quiet_env\<lparr>irq_freeze_wake := (\<lambda>t. t \<noteq> [] \<and> fst (last t) = Wait_event)\<rparr>"






text \<open>
  An environment for a freeze that is woken during the wait, where the driver's
  \<^verbatim>\<open>suspend_again\<close> would answer true whenever asked.
\<close>

definition always_again_env :: env where
  "always_again_env =
     \<lparr>ret = (\<lambda>c t. case c of Ops_valid st \<Rightarrow> 1 | Ops_suspend_again \<Rightarrow> 1 | _ \<Rightarrow> 0),
      irq_freeze_wake = (\<lambda>t. t \<noteq> [] \<and> fst (last t) = Wait_event),
      CONFIG_PM_DEBUG = False\<rparr>"

text \<open>
  An environment where nothing fails and \<^verbatim>\<open>suspend_again\<close> answers true twice, then
  false; and the calls of one round of \<^verbatim>\<open>suspend_enter\<close> for a suspend to RAM with the
  full driver there.
\<close>

definition again_env :: env where
  "again_env =
     \<lparr>ret = (\<lambda>c t. case c of
                Ops_valid st \<Rightarrow> 1
              | Ops_suspend_again \<Rightarrow> (if count_list (map fst t) Ops_suspend_again < 2 then 1 else 0)
              | _ \<Rightarrow> 0),
      irq_freeze_wake = (\<lambda>t. False),
      CONFIG_PM_DEBUG = False\<rparr>"

definition round_calls :: "call list" where
  "round_calls =
     [Ops_prepare, Dpm_suspend_end, Ops_prepare_late, Disable_nonboot_cpus, Local_irq_disable,
      Syscore_suspend, Pm_wakeup_pending, Ops_enter PM_SUSPEND_MEM, Syscore_resume,
      Local_irq_enable, Enable_nonboot_cpus, Ops_wake, Dpm_resume_start, Ops_finish]"

section \<open>Basic facts\<close>

lemmas pm_suspend_consts =
  PM_SUSPEND_ON_def PM_SUSPEND_FREEZE_def PM_SUSPEND_STANDBY_def PM_SUSPEND_MEM_def
  PM_SUSPEND_MAX_def

lemmas errno_consts = EPERM_def EBUSY_def ENODEV_def EINVAL_def ENOSYS_def

subsection \<open>What a call to a collaborator changes\<close>

lemma call_fields [simp]:
  "suspend_ops (call env c s) = suspend_ops s"
  "pm_mutex (call env c s) = pm_mutex s"
  "suspend_stats (call env c s) = suspend_stats s"
  "pm_test_level (call env c s) = pm_test_level s"
  "g_resume_status (call env c s) = g_resume_status s"
  "pm_stay_unattended_period (call env c s) = pm_stay_unattended_period s"
  "g_keycheck_abort (call env c s) = g_keycheck_abort s"
  "pm_pwrcs_ret (call env c s) = pm_pwrcs_ret s"
  "events_check_enabled (call env c s) = events_check_enabled s"
  "irqs_disabled (call env c s) = irqs_disabled s"
  "klog (call env c s) = klog s"
  "trace (call env c s) = trace s @ [(c, 0)]"
  "suspend_freeze_wake (call env c s) =
     (suspend_freeze_wake s \<or> irq_freeze_wake env (trace s @ [(c, 0)]))"
  by (simp_all add: call_def Let_def freeze_wake_def)

lemma ext_fields [simp]:
  "fst (ext env c s) = ret env c (trace s)"
  "suspend_ops (snd (ext env c s)) = suspend_ops s"
  "pm_mutex (snd (ext env c s)) = pm_mutex s"
  "suspend_stats (snd (ext env c s)) = suspend_stats s"
  "pm_test_level (snd (ext env c s)) = pm_test_level s"
  "g_resume_status (snd (ext env c s)) = g_resume_status s"
  "pm_stay_unattended_period (snd (ext env c s)) = pm_stay_unattended_period s"
  "g_keycheck_abort (snd (ext env c s)) = g_keycheck_abort s"
  "pm_pwrcs_ret (snd (ext env c s)) = pm_pwrcs_ret s"
  "events_check_enabled (snd (ext env c s)) = events_check_enabled s"
  "irqs_disabled (snd (ext env c s)) = irqs_disabled s"
  "klog (snd (ext env c s)) = klog s"
  "trace (snd (ext env c s)) = trace s @ [(c, ret env c (trace s))]"
  "suspend_freeze_wake (snd (ext env c s)) =
     (suspend_freeze_wake s \<or> irq_freeze_wake env (trace s @ [(c, ret env c (trace s))]))"
  by (simp_all add: ext_def Let_def freeze_wake_def)

lemma printk_fields [simp]:
  "suspend_ops (printk m s) = suspend_ops s"
  "pm_mutex (printk m s) = pm_mutex s"
  "suspend_stats (printk m s) = suspend_stats s"
  "pm_test_level (printk m s) = pm_test_level s"
  "suspend_freeze_wake (printk m s) = suspend_freeze_wake s"
  "irqs_disabled (printk m s) = irqs_disabled s"
  "klog (printk m s) = klog s @ [m]"
  "trace (printk m s) = trace s"
  by (simp_all add: printk_def)

lemma suspend_test_fields [simp]:
  "fst (suspend_test env l s) = (if CONFIG_PM_DEBUG env \<and> pm_test_level s = l then 1 else 0)"
  "suspend_ops (snd (suspend_test env l s)) = suspend_ops s"
  "pm_mutex (snd (suspend_test env l s)) = pm_mutex s"
  "suspend_stats (snd (suspend_test env l s)) = suspend_stats s"
  "pm_test_level (snd (suspend_test env l s)) = pm_test_level s"
  "irqs_disabled (snd (suspend_test env l s)) = irqs_disabled s"
  by (simp_all add: suspend_test_def printk_def)

lemma suspend_test_trace:
  "trace (snd (suspend_test env l s)) =
     trace s @ (if CONFIG_PM_DEBUG env \<and> pm_test_level s = l then [(Mdelay 5000, 0)] else [])"
  by (simp add: suspend_test_def printk_def)

lemma suspend_test_wake:
  "suspend_freeze_wake (snd (suspend_test env l s)) =
     (suspend_freeze_wake s \<or>
      (CONFIG_PM_DEBUG env \<and> pm_test_level s = l \<and>
       irq_freeze_wake env (trace s @ [(Mdelay 5000, 0)])))"
  by (auto simp: suspend_test_def printk_def)

lemma new_entries_append [simp]: "trace s' = trace s @ evs \<Longrightarrow> new_entries s s' = evs"
  by (simp add: new_entries_def)

subsection \<open>Runs of calls\<close>

lemma errors_simps [simp]:
  "errors [] = []"
  "errors (xs @ ys) = errors xs @ errors ys"
  "errors [(c, 0)] = []"
  "\<not> reports_error c \<Longrightarrow> errors [(c, r)] = []"
  "reports_error c \<Longrightarrow> r \<noteq> 0 \<Longrightarrow> errors [(c, r)] = [r]"
  by (simp_all add: errors_def)

lemma steps_refl: "steps A [] s s"
  by (simp add: steps_def)

lemma steps_call: "steps A es s0 s \<Longrightarrow> c \<in> A \<Longrightarrow> steps A es s0 (call env c s)"
  by (auto simp: steps_def)

lemma steps_ext:
  "steps A es s0 s \<Longrightarrow> c \<in> A \<Longrightarrow> ret env c (trace s) = 0 \<or> \<not> reports_error c \<Longrightarrow>
   steps A es s0 (snd (ext env c s))"
  by (auto simp: steps_def)

lemma steps_ext_err:
  "steps A [] s0 s \<Longrightarrow> c \<in> A \<Longrightarrow> reports_error c \<Longrightarrow> ret env c (trace s) = e \<Longrightarrow> e \<noteq> 0 \<Longrightarrow>
   steps A [e] s0 (snd (ext env c s))"
  by (auto simp: steps_def)

lemma steps_upd:
  "steps A es s0 s \<Longrightarrow> steps A es s0 (printk m s)"
  "steps A es s0 s \<Longrightarrow> steps A es s0 (s\<lparr>events_check_enabled := b\<rparr>)"
  "steps A es s0 s \<Longrightarrow> steps A es s0 (s\<lparr>irqs_disabled := b\<rparr>)"
  "steps A es s0 s \<Longrightarrow> steps A es s0 (s\<lparr>pm_pwrcs_ret := i\<rparr>)"
  "steps A es s0 s \<Longrightarrow> steps A es s0 (s\<lparr>g_resume_status := b\<rparr>)"
  "steps A es s0 s \<Longrightarrow> steps A es s0 (s\<lparr>pm_stay_unattended_period := i\<rparr>)"
  "steps A es s0 s \<Longrightarrow> steps A es s0 (s\<lparr>g_keycheck_abort := i\<rparr>)"
  by (simp_all add: steps_def printk_def)

lemma steps_suspend_test:
  "steps A es s0 s \<Longrightarrow> Mdelay 5000 \<in> A \<Longrightarrow> steps A es s0 (snd (suspend_test env l s))"
  by (simp add: suspend_test_def steps_call steps_upd)

lemmas steps_rules = steps_call steps_ext steps_ext_err steps_upd steps_suspend_test

lemma ok_result_simps [simp]:
  "ok_result A s0 (Crashed s)" "ok_result A s0 (Blocked s)"
  "ok_int A s0 (Crashed s)" "ok_int A s0 (Blocked s)"
  by (simp_all add: ok_result_def ok_int_def)

subsection \<open>The low-level enter, label by label\<close>

lemma enter_calls_mem:
  assumes "enter_calls \<subseteq> A"
  shows "Ops_prepare \<in> A" "Dpm_suspend_end \<in> A" "Ops_prepare_late \<in> A" "Mdelay 5000 \<in> A"
    "Wait_event \<in> A" "Disable_nonboot_cpus \<in> A" "Local_irq_disable \<in> A"
    "Syscore_suspend \<in> A" "Pm_wakeup_pending \<in> A" "Ops_enter st \<in> A" "Syscore_resume \<in> A"
    "Local_irq_enable \<in> A" "Enable_nonboot_cpus \<in> A" "Ops_wake \<in> A" "Dpm_resume_start \<in> A"
    "Ops_finish \<in> A"
  using assms by (auto simp: enter_calls_def)

lemma Platform_finish_ok:
  assumes "steps A (errs_of e) s0 s" and "enter_calls \<subseteq> A"
  shows "ok_result A s0 (Platform_finish env st e w s)"
  using assms(1)
  by (simp add: Platform_finish_def ops_has_def obind_def ok_result_def steps_rules
      enter_calls_mem[OF assms(2)] split: option.splits)

lemma Platform_wake_ok:
  assumes "steps A (errs_of e) s0 s" and "enter_calls \<subseteq> A"
  shows "ok_result A s0 (Platform_wake env st e w s)"
  using assms
  by (simp add: Platform_wake_def ops_has_def obind_def steps_rules Platform_finish_ok
      enter_calls_mem[OF assms(2)] split: option.splits)

lemma Enable_cpus_ok:
  assumes "steps A (errs_of e) s0 s" and "enter_calls \<subseteq> A"
  shows "ok_result A s0 (Enable_cpus env st e w s)"
  using assms
  by (simp add: Enable_cpus_def steps_rules Platform_wake_ok enter_calls_mem[OF assms(2)])

lemma suspend_enter_core_ok:
  assumes "steps A [] s0 s" and "enter_calls \<subseteq> A"
  shows "ok_result A s0 (suspend_enter_core env st w s)"
  using assms
  by (simp add: suspend_enter_core_def ops_enter_def arch_suspend_disable_irqs_def
      arch_suspend_enable_irqs_def obind_def Let_def split_beta errs_of_def reports_error_def
      steps_rules Enable_cpus_ok enter_calls_mem[OF assms(2)] split: option.splits)

lemma suspend_enter_sleep_ok:
  assumes "steps A [] s0 s" and "enter_calls \<subseteq> A"
  shows "ok_result A s0 (suspend_enter_sleep env st 0 w s)"
  using assms
  by (simp add: suspend_enter_sleep_def freeze_enter_def obind_def Let_def split_beta
      errs_of_def reports_error_def steps_rules Enable_cpus_ok Platform_wake_ok
      suspend_enter_core_ok enter_calls_mem[OF assms(2)])

lemma suspend_enter_late_ok:
  assumes "steps A [] s0 s" and "enter_calls \<subseteq> A"
  shows "ok_result A s0 (suspend_enter_late env st w s)"
  using assms
  by (simp add: suspend_enter_late_def ops_has_def obind_def Let_def split_beta
      errs_of_def reports_error_def steps_rules Platform_finish_ok Platform_wake_ok
      suspend_enter_sleep_ok enter_calls_mem[OF assms(2)] split: option.splits)

lemma suspend_enter_ok:
  assumes "steps A [] s0 s" and "enter_calls \<subseteq> A"
  shows "ok_result A s0 (suspend_enter env st w s)"
  using assms
  by (simp add: suspend_enter_def ops_has_def obind_def Let_def split_beta
      errs_of_def reports_error_def steps_rules Platform_finish_ok
      suspend_enter_late_ok enter_calls_mem[OF assms(2)] split: option.splits)

subsection \<open>The retry loop and the device phase\<close>

lemma suspend_enter_loop_ok_aux:
  assumes A: "enter_calls \<subseteq> A" "Ops_suspend_again \<in> A"
    and run: "suspend_enter_loop env st w s = Some r"
  shows "\<forall>s0. steps A [] s0 s \<longrightarrow> ok_int A s0 r"
proof (rule suspend_enter_loop.raw_induct
    [where P = "\<lambda>env st w s r. \<forall>s0. steps A [] s0 s \<longrightarrow> ok_int A s0 r", OF _ run], goal_cases)
  case (1 loop env st wakeup s r)
  show ?case
  proof (intro allI impI)
    fix s0 assume s0: "steps A [] s0 s"
    have ok: "ok_result A s0 (suspend_enter env st wakeup s)"
      using s0 A(1) by (rule suspend_enter_ok)
    show "ok_int A s0 r"
    proof (cases "suspend_enter env st wakeup s")
      case (Returned ew s1)
      with ok have st1: "steps A (errs_of (fst ew)) s0 s1" by (simp add: ok_result_def)
      show ?thesis
      proof (cases "fst ew = 0 \<and> \<not> snd ew")
        case False
        with 1(2) Returned st1 show ?thesis by (auto simp: ok_int_def)
      next
        case True
        then have st1': "steps A [] s0 s1" using st1 by (simp add: errs_of_def)
        have nr: "\<not> reports_error Ops_suspend_again" by (simp add: reports_error_def)
        have st3: "steps A [] s0 (snd (ext env Ops_suspend_again s1))"
          using st1' A(2) nr by (simp add: steps_ext)
        show ?thesis
          using 1(2) Returned True st1' st3 1(1)
          by (auto simp: ok_int_def ops_has_def errs_of_def split: if_splits option.splits)
      qed
    qed (use 1(2) in auto)
  qed
qed

lemma suspend_enter_loop_ok:
  assumes "suspend_enter_loop env st w s = Some r" and "steps A [] s0 s"
    and "enter_calls \<subseteq> A" and "Ops_suspend_again \<in> A"
  shows "ok_int A s0 r"
  using suspend_enter_loop_ok_aux[OF assms(3,4,1)] assms(2) by blast









subsection \<open>The orchestrator\<close>

lemma valid_state_fields [simp]:
  "suspend_ops (snd (valid_state env st s)) = suspend_ops s"
  "pm_mutex (snd (valid_state env st s)) = pm_mutex s"
  "suspend_stats (snd (valid_state env st s)) = suspend_stats s"
  "pm_test_level (snd (valid_state env st s)) = pm_test_level s"
  by (simp_all add: valid_state_def split_beta split: option.splits)

lemma enter_state_sync_fields [simp]:
  "suspend_ops (enter_state_sync env st s) = suspend_ops s"
  "pm_mutex (enter_state_sync env st s) = pm_mutex s"
  "suspend_stats (enter_state_sync env st s) = suspend_stats s"
  "pm_test_level (enter_state_sync env st s) = pm_test_level s"
  by (simp_all add: enter_state_sync_def freeze_begin_def Let_def)

lemma suspend_prepare_fields [simp]:
  "suspend_ops (snd (suspend_prepare env st s)) = suspend_ops s"
  "pm_mutex (snd (suspend_prepare env st s)) = pm_mutex s"
  "success (suspend_stats (snd (suspend_prepare env st s))) = success (suspend_stats s)"
  "fail (suspend_stats (snd (suspend_prepare env st s))) = fail (suspend_stats s)"
  "pm_test_level (snd (suspend_prepare env st s)) = pm_test_level s"
  by (simp_all add: suspend_prepare_def suspend_prepare_Finish_def Let_def split_beta)

lemma suspend_finish_fields [simp]:
  "suspend_ops (suspend_finish env s) = suspend_ops s"
  "pm_mutex (suspend_finish env s) = pm_mutex s"
  "suspend_stats (suspend_finish env s) = suspend_stats s"
  "pm_test_level (suspend_finish env s) = pm_test_level s"
  by (simp_all add: suspend_finish_def Let_def)

lemma pm_suspend_marker_fields [simp]:
  "suspend_ops (pm_suspend_marker env s) = suspend_ops s"
  "pm_mutex (pm_suspend_marker env s) = pm_mutex s"
  "suspend_stats (pm_suspend_marker env s) = suspend_stats s"
  "pm_test_level (pm_suspend_marker env s) = pm_test_level s"
  by (simp_all add: pm_suspend_marker_def Let_def)


subsection \<open>Histories of the orchestrator\<close>


lemma valid_state_trace:
  "\<exists>evs. trace (snd (valid_state env st s)) = trace s @ evs \<and> set (map fst evs) \<subseteq> {Ops_valid st}"
  by (simp add: valid_state_def split_beta split: option.splits)

lemma enter_state_sync_trace [simp]:
  "trace (enter_state_sync env st s) = trace s @ [(Sys_sync, 0)]"
  by (simp add: enter_state_sync_def freeze_begin_def Let_def)


lemma suspend_finish_trace [simp]:
  "trace (suspend_finish env s) =
     trace s @ [(Suspend_thaw_processes, 0),
       (Pm_notifier_call_chain PM_POST_SUSPEND,
        ret env (Pm_notifier_call_chain PM_POST_SUSPEND) (trace s @ [(Suspend_thaw_processes, 0)])),
       (Pm_restore_console, 0)]"
  by (simp add: suspend_finish_def Let_def)

lemma new_calls_append: "trace s' = trace s @ evs \<Longrightarrow> new_calls s s' = map fst evs"
  by (simp add: new_calls_def)

subsection \<open>The freeze path\<close>

lemma fzr_trans:
  "trace s1 = trace s @ evs0 \<Longrightarrow> filter hw_entry (map fst evs0) = [] \<Longrightarrow> fzr s1 r \<Longrightarrow> fzr s r"
  by (auto simp: fzr_def)

lemma suspend_enter_freeze:
  "fzr s (suspend_enter env PM_SUSPEND_FREEZE w s)"
  by (simp add: suspend_enter_def suspend_enter_late_def suspend_enter_sleep_def
      Platform_wake_def Platform_finish_def ops_has_def freeze_enter_def obind_def
      need_suspend_ops_def Let_def split_beta fzr_def hw_entry_def suspend_test_trace)

lemma suspend_enter_loop_freeze:
  "suspend_enter_loop env PM_SUSPEND_FREEZE w s =
     Some (case suspend_enter env PM_SUSPEND_FREEZE w s of
             Returned ew s1 \<Rightarrow> Returned (fst ew) s1
           | Blocked s1 \<Rightarrow> Blocked s1
           | Crashed s1 \<Rightarrow> Crashed s1)"
  by (subst suspend_enter_loop.simps)
     (simp add: ops_has_def need_suspend_ops_def split: outcome.splits)

lemma suspend_enter_loop_freeze_fzr:
  "\<exists>r. suspend_enter_loop env PM_SUSPEND_FREEZE w s = Some r \<and> fzr s r"
  using suspend_enter_freeze[of s env w]
  by (auto simp: suspend_enter_loop_freeze fzr_def split: outcome.splits)


lemma fzr_obind:
  assumes "fzr s0 m" and "\<And>x s1. m = Returned x s1 \<Longrightarrow> fzr s1 (f x s1)"
  shows "fzr s0 (obind m f)"
proof (cases m)
  case (Returned x s1)
  from assms(1) Returned obtain evs where
    "trace s1 = trace s0 @ evs" "filter hw_entry (map fst evs) = []"
    by (auto simp: fzr_def)
  from fzr_trans[OF this assms(2)[OF Returned]] Returned show ?thesis
    by (simp add: obind_def)
next
  case (Blocked s1)
  with assms(1) show ?thesis by (simp add: obind_def fzr_def)
next
  case (Crashed s1)
  with assms(1) show ?thesis by (simp add: obind_def fzr_def)
qed

lemma fzr_then_opt:
  assumes "\<exists>r. m = Some r \<and> fzr s0 r" and "\<And>x s1. fzr s1 (f x s1)"
  shows "\<exists>r. then_opt m f = Some r \<and> fzr s0 r"
proof -
  from assms(1) obtain r where r: "m = Some r" "fzr s0 r" by blast
  from r(2) have "fzr s0 (obind r f)" by (rule fzr_obind) (rule assms(2))
  with r(1) show ?thesis by (simp add: then_opt_def)
qed

lemma fzr_after:
  assumes "trace s1 = trace s @ evs0" and "filter hw_entry (map fst evs0) = []"
    and "\<exists>r. m = Some r \<and> fzr s1 r"
  shows "\<exists>r. m = Some r \<and> fzr s r"
  using assms by (auto intro: fzr_trans)

lemma Resume_devices_freeze:
  "fzr s (Resume_devices env PM_SUSPEND_FREEZE e s)"
  by (simp add: Resume_devices_def Close_def ops_has_def need_suspend_ops_def obind_def Let_def
      fzr_def hw_entry_def)

lemma Recover_platform_freeze:
  "fzr s (Recover_platform env PM_SUSPEND_FREEZE e s)"
  by (simp add: Recover_platform_def Resume_devices_def Close_def ops_has_def
      need_suspend_ops_def obind_def Let_def fzr_def hw_entry_def)

lemma suspend_devices_freeze:
  "\<exists>r. suspend_devices env PM_SUSPEND_FREEZE s = Some r \<and> fzr s r"
proof -
  let ?s7 = "snd (ext env Dpm_suspend_start (call env Suspend_test_start (call env Ftrace_stop
      (call env Suspend_console ((call env Del_timer
        (printk (STR ''[PM]unattended_timer: del_timer'') s))\<lparr>pm_stay_unattended_period := 0\<rparr>)))))"
  let ?sa = "printk (STR ''[PM] suspend_devices: Some devices failed to suspend'') ?s7"
  let ?s9 = "snd (suspend_test env TEST_DEVICES
      (call env (Suspend_test_finish (STR ''suspend devices'')) ?s7))"
  have a: "\<exists>evs. trace ?sa = trace s @ evs \<and> filter hw_entry (map fst evs) = []"
    by (simp add: hw_entry_def)
  have b: "\<exists>evs. trace ?s9 = trace s @ evs \<and> filter hw_entry (map fst evs) = []"
    by (simp add: hw_entry_def suspend_test_trace)
  from a obtain ea where ea: "trace ?sa = trace s @ ea" "filter hw_entry (map fst ea) = []"
    by blast
  from b obtain eb where eb: "trace ?s9 = trace s @ eb" "filter hw_entry (map fst eb) = []"
    by blast
  have A: "fzr s (Recover_platform env PM_SUSPEND_FREEZE e ?sa)" for e
    by (rule fzr_trans[OF ea Recover_platform_freeze])
  have B: "fzr s (Recover_platform env PM_SUSPEND_FREEZE e ?s9)" for e
    by (rule fzr_trans[OF eb Recover_platform_freeze])
  have "\<exists>r. then_opt (suspend_enter_loop env PM_SUSPEND_FREEZE False ?s9)
          (\<lambda>error1 s10. Resume_devices env PM_SUSPEND_FREEZE error1 (s10\<lparr>pm_pwrcs_ret := 1\<rparr>))
          = Some r \<and> fzr ?s9 r"
  proof (rule fzr_then_opt[OF suspend_enter_loop_freeze_fzr])
    fix x s1
    have "fzr (s1\<lparr>pm_pwrcs_ret := 1\<rparr>)
        (Resume_devices env PM_SUSPEND_FREEZE x (s1\<lparr>pm_pwrcs_ret := 1\<rparr>))"
      by (rule Resume_devices_freeze)
    then show "fzr s1 (Resume_devices env PM_SUSPEND_FREEZE x (s1\<lparr>pm_pwrcs_ret := 1\<rparr>))"
      by (simp add: fzr_def)
  qed
  from fzr_after[OF eb this] have C: "\<exists>r. then_opt (suspend_enter_loop env PM_SUSPEND_FREEZE False ?s9)
          (\<lambda>error1 s10. Resume_devices env PM_SUSPEND_FREEZE error1 (s10\<lparr>pm_pwrcs_ret := 1\<rparr>))
          = Some r \<and> fzr s r" .
  show ?thesis
    using A B C by (simp add: suspend_devices_def Let_def split_beta)
qed

lemma suspend_devices_and_enter_freeze:
  "\<exists>r. suspend_devices_and_enter env PM_SUSPEND_FREEZE s = Some r \<and> fzr s r"
proof -
  let ?s1 = "call env (Trace_machine_suspend PM_SUSPEND_FREEZE) s"
  have "trace ?s1 = trace s @ [(Trace_machine_suspend PM_SUSPEND_FREEZE, 0)]"
    "filter hw_entry (map fst [(Trace_machine_suspend PM_SUSPEND_FREEZE, 0)]) = []"
    by (simp_all add: hw_entry_def)
  from fzr_after[OF this suspend_devices_freeze] show ?thesis
    by (simp add: suspend_devices_and_enter_def ops_has_def need_suspend_ops_def Let_def)
qed

lemma suspend_prepare_hw:
  "\<exists>evs. trace (snd (suspend_prepare env st s)) = trace s @ evs
      \<and> filter hw_entry (map fst evs) = []"
  by (simp add: suspend_prepare_def suspend_prepare_Finish_def split_beta Let_def hw_entry_def)

lemma enter_state_Finish_freeze: "fzr s (enter_state_Finish env e s)"
  by (simp add: enter_state_Finish_def enter_state_Unlock_def mutex_unlock_def Let_def
      fzr_def hw_entry_def)

lemma fzr_Returned:
  "trace s' = trace s @ evs \<Longrightarrow> filter hw_entry (map fst evs) = [] \<Longrightarrow> fzr s (Returned x s')"
  by (simp add: fzr_def)

lemma enter_state_freeze:
  "\<exists>r. enter_state env PM_SUSPEND_FREEZE s = Some r \<and> fzr s r"
proof -
  let ?s1 = "snd (valid_state env PM_SUSPEND_FREEZE s)"
  let ?s3 = "enter_state_sync env PM_SUSPEND_FREEZE (?s1\<lparr>pm_mutex := True\<rparr>)"
  let ?s4 = "snd (suspend_prepare env PM_SUSPEND_FREEZE ?s3)"
  let ?s5 = "snd (suspend_test env TEST_FREEZER ?s4)"
  let ?s7 = "call env Pm_restrict_gfp_mask
      (printk (STR ''[PM] enter_state: suspend devices, entering %s sleep'') ?s5)"
  have t1: "trace ?s1 = trace s @ []" by (simp add: valid_state_def)
  obtain e2 where e2: "trace ?s4 = trace ?s3 @ e2" "filter hw_entry (map fst e2) = []"
    using suspend_prepare_hw by blast
  have t4: "trace ?s4 = trace s @ ((Sys_sync, 0) # e2)" using e2(1) t1 by simp
  have h4: "filter hw_entry (map fst ((Sys_sync, 0) # e2)) = []"
    using e2(2) by (simp add: hw_entry_def)
  obtain e5 where e5: "trace ?s5 = trace s @ e5" "filter hw_entry (map fst e5) = []"
    using t4 h4 by (simp add: suspend_test_trace hw_entry_def)
  have t7: "trace ?s7 = trace s @ (e5 @ [(Pm_restrict_gfp_mask, 0)])"
    "filter hw_entry (map fst (e5 @ [(Pm_restrict_gfp_mask, 0)])) = []"
    using e5 by (simp_all add: hw_entry_def)
  have L1: "fzr s (Returned x ?s1)" for x :: int
    using t1 by (rule fzr_Returned) simp
  have L3: "fzr s (enter_state_Unlock e ?s4)" for e
    unfolding enter_state_Unlock_def
    by (rule fzr_Returned[of _ _ "(Sys_sync, 0) # e2"]) (use t4 h4 in \<open>simp_all add: mutex_unlock_def\<close>)
  have L4: "fzr s (enter_state_Finish env e ?s5)" for e
    by (rule fzr_trans[OF e5 enter_state_Finish_freeze])
  have "\<exists>r. then_opt (suspend_devices_and_enter env PM_SUSPEND_FREEZE ?s7)
          (\<lambda>error1 s8. enter_state_Finish env error1 (call env Pm_restore_gfp_mask s8))
          = Some r \<and> fzr ?s7 r"
  proof (rule fzr_then_opt[OF suspend_devices_and_enter_freeze])
    fix x s1
    have "trace (call env Pm_restore_gfp_mask s1) = trace s1 @ [(Pm_restore_gfp_mask, 0)]"
      "filter hw_entry (map fst [(Pm_restore_gfp_mask, 0)]) = []"
      by (simp_all add: hw_entry_def)
    from fzr_trans[OF this enter_state_Finish_freeze]
    show "fzr s1 (enter_state_Finish env x (call env Pm_restore_gfp_mask s1))" .
  qed
  from fzr_after[OF t7 this]
  have L5: "\<exists>r. then_opt (suspend_devices_and_enter env PM_SUSPEND_FREEZE ?s7)
          (\<lambda>error1 s8. enter_state_Finish env error1 (call env Pm_restore_gfp_mask s8))
          = Some r \<and> fzr s r" .
  show ?thesis
    using L1 L3 L4 L5 by (simp add: enter_state_def split_beta Let_def mutex_trylock_def)
qed

lemma pm_suspend_freeze:
  "\<exists>r. pm_suspend env PM_SUSPEND_FREEZE s = Some r \<and> fzr s r"
proof -
  let ?s4 = "printk (STR ''[PM] entering_state: %d'')
      (pm_suspend_marker env (call env Asus_otg_host_power_off (printk (STR ''[PM] ++pm_suspend'') s)))"
  have t4: "trace ?s4 = trace s @ [(Asus_otg_host_power_off, 0), (Getnstimeofday, 0), (Rtc_time_to_tm, 0)]"
    "filter hw_entry (map fst [(Asus_otg_host_power_off, 0), (Getnstimeofday, 0), (Rtc_time_to_tm, 0)]) = []"
    by (simp_all add: pm_suspend_marker_def Let_def hw_entry_def)
  let ?f = "\<lambda>error s5.
                let s6 =
                      (if error \<noteq> 0 then
                         (let s5a = s5\<lparr>suspend_stats := (suspend_stats s5)
                                     \<lparr>fail := fail (suspend_stats s5) + 1\<rparr>\<rparr>;
                              s5b = call env (Dpm_save_failed_errno error) s5a
                          in printk (STR ''[PM] pm_suspend failed, cnt: %d'') s5b)
                       else
                         (let s5a = s5\<lparr>suspend_stats := (suspend_stats s5)
                                     \<lparr>success := success (suspend_stats s5) + 1\<rparr>\<rparr>
                          in printk (STR ''[PM] pm_suspend success, cnt: %d'') s5a));
                    s7 = pm_suspend_marker env s6;
                    s8 = printk (STR ''[PM] --pm_suspend'') s7
                in Returned error s8"
  have "\<exists>r. then_opt (enter_state env PM_SUSPEND_FREEZE ?s4) ?f = Some r \<and> fzr ?s4 r"
    by (rule fzr_then_opt[OF enter_state_freeze])
       (simp add: fzr_def pm_suspend_marker_def Let_def hw_entry_def)
  from fzr_after[OF t4 this] show ?thesis
    by (simp add: pm_suspend_def Let_def pm_suspend_consts)
qed

subsection \<open>The way to the hardware entry\<close>

lemma void_simps [simp]:
  "void [] = []" "void (c # cs) = (c, 0) # void cs" "void (xs @ ys) = void xs @ void ys"
  "map fst (void cs) = cs"
  by (simp_all add: void_def comp_def)

lemma cb_calls_cong [simp]:
  "cb_calls f c st (call env c' s) = cb_calls f c st s"
  "cb_calls f c st (snd (ext env c' s)) = cb_calls f c st s"
  "cb_calls f c st (printk m s) = cb_calls f c st s"
  "cb_calls f c st (snd (suspend_test env l s)) = cb_calls f c st s"
  by (simp_all add: cb_calls_def)









lemma filter_core_cb [simp]:
  "filter core_call (cb_calls has_wake Ops_wake st s) = []"
  "filter core_call (cb_calls has_finish Ops_finish st s) = []"
  by (simp_all add: cb_calls_def core_call_def)





subsection \<open>The device phase, call by call\<close>

lemma cb_calls_upd [simp]:
  "cb_calls f c st (s\<lparr>pm_pwrcs_ret := i\<rparr>) = cb_calls f c st s"
  "cb_calls f c st (s\<lparr>g_resume_status := b\<rparr>) = cb_calls f c st s"
  "cb_calls f c st (s\<lparr>pm_stay_unattended_period := i\<rparr>) = cb_calls f c st s"
  by (simp_all add: cb_calls_def)

lemma cb_calls_same: "suspend_ops s' = suspend_ops s \<Longrightarrow> cb_calls f c st s' = cb_calls f c st s"
  by (simp add: cb_calls_def)




lemma loop_calls:
  assumes "suspend_enter_loop env st w s = Some (Returned e s')"
  shows "suspend_ops s' = suspend_ops s \<and>
     (\<exists>evs. trace s' = trace s @ evs \<and> filter outer_step (map fst evs) = [])"
proof -
  have "ok_int (enter_calls \<union> {Ops_suspend_again}) s (Returned e s')"
    using assms steps_refl by (rule suspend_enter_loop_ok) auto
  then obtain evs where evs: "suspend_ops s' = suspend_ops s" "trace s' = trace s @ evs"
      "fst ` set evs \<subseteq> enter_calls \<union> {Ops_suspend_again}"
    by (auto simp: ok_int_def steps_def)
  have "\<not> outer_step c" if "c \<in> enter_calls \<union> {Ops_suspend_again}" for c
    using that by (auto simp: enter_calls_def outer_step_def)
  with evs(3) have "filter outer_step (map fst evs) = []"
    by (auto simp: filter_empty_conv)
  with evs(1,2) show ?thesis by blast
qed




lemma suspend_enter_has_driver:
  assumes "suspend_enter env st w s = Returned ew s1" and "need_suspend_ops st"
  shows "suspend_ops s1 \<noteq> None"
proof -
  from assms have "suspend_ops s \<noteq> None"
    by (auto simp: suspend_enter_def ops_has_def obind_def split: option.splits)
  moreover have "ok_result enter_calls s (suspend_enter env st w s)"
    by (rule suspend_enter_ok[OF steps_refl]) simp
  then have "suspend_ops s1 = suspend_ops s"
    using assms(1) by (simp add: ok_result_def steps_def)
  ultimately show ?thesis by simp
qed

subsection \<open>The window of a freeze\<close>



lemma freeze_in_range [simp]:
  "\<not> PM_SUSPEND_FREEZE \<le> PM_SUSPEND_ON" "\<not> PM_SUSPEND_MAX \<le> PM_SUSPEND_FREEZE"
  by (simp_all add: pm_suspend_consts)

subsection \<open>Evaluating a run on an example machine\<close>

lemmas run_defs =
  pm_suspend_def pm_suspend_marker_def enter_state_def enter_state_sync_def
  enter_state_Finish_def enter_state_Unlock_def mutex_trylock_def mutex_unlock_def
  suspend_finish_def valid_state_def suspend_prepare_def suspend_prepare_Finish_def
  suspend_devices_and_enter_def suspend_devices_def Recover_platform_def Resume_devices_def
  Close_def then_opt_def suspend_enter_def suspend_enter_late_def suspend_enter_sleep_def
  suspend_enter_core_def ops_enter_def Enable_cpus_def Platform_wake_def Platform_finish_def
  ops_has_def arch_suspend_disable_irqs_def arch_suspend_enable_irqs_def freeze_enter_def
  freeze_begin_def need_suspend_ops_def obind_def Let_def split_beta suspend_test_trace
  suspend_test_wake

lemma quiet_env_simps [simp]:
  "ret quiet_env c t = (case c of Ops_valid st \<Rightarrow> 1 | _ \<Rightarrow> 0)"
  "irq_freeze_wake quiet_env t = False"
  "CONFIG_PM_DEBUG quiet_env = False"
  by (simp_all add: quiet_env_def)

lemma driver_state_simps [simp]:
  "suspend_ops driver_state = Some full_ops"
  "pm_mutex driver_state = False"
  "suspend_stats driver_state = \<lparr>success = 0, fail = 0, failed_freeze = 0\<rparr>"
  "pm_test_level driver_state = TEST_NONE"
  "suspend_freeze_wake driver_state = False"
  "irqs_disabled driver_state = False"
  "klog driver_state = []"
  "trace driver_state = []"
  by (simp_all add: driver_state_def boot_state_def)

lemma full_ops_simps [simp]:
  "has_valid full_ops" "has_begin full_ops" "has_prepare full_ops" "has_prepare_late full_ops"
  "has_enter full_ops" "has_wake full_ops" "has_finish full_ops" "has_suspend_again full_ops"
  "has_end full_ops" "has_recover full_ops"
  by (simp_all add: full_ops_def)

lemma again_env_simps [simp]:
  "ret again_env c t =
     (case c of
        Ops_valid st \<Rightarrow> 1
      | Ops_suspend_again \<Rightarrow> (if count_list (map fst t) Ops_suspend_again < 2 then 1 else 0)
      | _ \<Rightarrow> 0)"
  "irq_freeze_wake again_env t = False"
  "CONFIG_PM_DEBUG again_env = False"
  by (simp_all add: again_env_def)

lemma again_round:
  assumes "suspend_ops s = Some full_ops"
  shows "\<exists>s'. suspend_enter again_env PM_SUSPEND_MEM False s = Returned (0, False) s' \<and>
     suspend_ops s' = Some full_ops \<and> trace s' = trace s @ void round_calls"
  using assms
  by (simp add: run_defs round_calls_def pm_suspend_consts)

section \<open>The claims\<close>

subsection \<open>C1: the finish phase runs when the prepare phase succeeded\<close>




subsection \<open>C4: freeze never reaches the hardware entry\<close>

text \<open>
  C4. For every call of \<^verbatim>\<open>pm_suspend\<close> with the state \<^verbatim>\<open>PM_SUSPEND_FREEZE\<close>, whatever
  the collaborators answer and whatever driver is registered: the call ends (the retry
  loop makes one round), the kernel is not stopped, and none of
  \<^verbatim>\<open>disable_nonboot_cpus\<close>, \<^verbatim>\<open>arch_suspend_disable_irqs\<close>, \<^verbatim>\<open>syscore_suspend\<close> and the
  driver's \<^verbatim>\<open>enter\<close> is called; the only place where the call can sleep for ever is
  the \<^verbatim>\<open>wait_event\<close> of \<^verbatim>\<open>freeze_enter\<close>.
\<close>

theorem freeze_never_enters_hardware:
  "\<exists>r. pm_suspend env PM_SUSPEND_FREEZE s = Some r \<and> \<not> is_Crashed r \<and>
      filter hw_entry (new_calls s (final r)) = [] \<and>
      (is_Blocked r \<longrightarrow> new_calls s (final r) \<noteq> [] \<and> last (new_calls s (final r)) = Wait_event)"
proof -
  from pm_suspend_freeze obtain r where r: "pm_suspend env PM_SUSPEND_FREEZE s = Some r" "fzr s r"
    by blast
  from r(2) obtain evs where evs: "\<not> is_Crashed r" "trace (final r) = trace s @ evs"
    "filter hw_entry (map fst evs) = []" "is_Blocked r \<longrightarrow> evs \<noteq> [] \<and> fst (last evs) = Wait_event"
    by (auto simp: fzr_def)
  have "new_calls s (final r) = map fst evs" using evs(2) by (simp add: new_calls_def)
  with r(1) evs show ?thesis by (auto simp: last_map)
qed

text \<open>
  A freeze on the machine just booted: woken while it waits, it returns 0 after one
  \<^verbatim>\<open>wait_event\<close>; never woken, it sleeps in \<^verbatim>\<open>wait_event\<close>. Neither run makes a step
  of the hardware entry.
\<close>

theorem freeze_never_enters_hardware_witness:
  "retval (pm_suspend wake_env PM_SUSPEND_FREEZE boot_state) = Some 0 \<and>
   filter hw_entry (calls_of (pm_suspend wake_env PM_SUSPEND_FREEZE boot_state)) = [] \<and>
   count_list (calls_of (pm_suspend wake_env PM_SUSPEND_FREEZE boot_state)) Wait_event = 1 \<and>
   map_option is_Blocked (pm_suspend quiet_env PM_SUSPEND_FREEZE boot_state) = Some True \<and>
   filter hw_entry (calls_of (pm_suspend quiet_env PM_SUSPEND_FREEZE boot_state)) = [] \<and>
   last (calls_of (pm_suspend quiet_env PM_SUSPEND_FREEZE boot_state)) = Wait_event"
proof -
  have t: "trace boot_state = []" by (simp add: boot_state_def)
  have c: "new_calls boot_state s' = map fst (trace s')" for s'
    using t by (simp add: new_calls_def new_entries_def)
  from freeze_never_enters_hardware[of wake_env boot_state] obtain r1 where
    r1: "pm_suspend wake_env PM_SUSPEND_FREEZE boot_state = Some r1"
      "filter hw_entry (new_calls boot_state (final r1)) = []" by blast
  from freeze_never_enters_hardware[of quiet_env boot_state] obtain r2 where
    r2: "pm_suspend quiet_env PM_SUSPEND_FREEZE boot_state = Some r2"
      "filter hw_entry (new_calls boot_state (final r2)) = []"
      "is_Blocked r2 \<longrightarrow> last (new_calls boot_state (final r2)) = Wait_event" by blast
  have a: "retval (pm_suspend wake_env PM_SUSPEND_FREEZE boot_state) = Some 0"
    "count_list (calls_of (pm_suspend wake_env PM_SUSPEND_FREEZE boot_state)) Wait_event = 1"
    by (simp_all add: run_defs suspend_enter_loop.simps wake_env_def boot_state_def pm_suspend_consts)
  have b: "map_option is_Blocked (pm_suspend quiet_env PM_SUSPEND_FREEZE boot_state) = Some True"
    by (simp add: run_defs suspend_enter_loop.simps boot_state_def pm_suspend_consts)
  from r1 r2 a b show ?thesis by (auto simp: c)
qed

subsection \<open>C7: a second caller is turned away\<close>

text \<open>
  C7 says that a call of \<^verbatim>\<open>enter_state\<close> made while the mutex is held returns
  \<^verbatim>\<open>-EBUSY\<close>. The state is checked first: a second caller that asks for standby on a
  machine with no driver gets \<^verbatim>\<open>-ENODEV\<close>.
\<close>

theorem enter_state_busy_invalid_state:
  "pm_mutex busy_state \<and>
   retval (enter_state quiet_env PM_SUSPEND_STANDBY busy_state) = Some (- ENODEV) \<and>
   - ENODEV \<noteq> - EBUSY"
  by (simp add: busy_state_def boot_state_def run_defs pm_suspend_consts errno_consts)

text \<open>
  C7, amended. For every call of \<^verbatim>\<open>enter_state\<close> made while the mutex is held: the
  call returns at once, with \<^verbatim>\<open>-EBUSY\<close> (from the non-blocking \<^verbatim>\<open>mutex_trylock\<close>) when
  \<^verbatim>\<open>valid_state\<close> accepts the state and with \<^verbatim>\<open>-ENODEV\<close> when it does not; no phase is
  run (the only collaborator that may be called is the driver's \<^verbatim>\<open>valid\<close>), the mutex
  stays with its holder and the statistics are as they were.
\<close>

theorem enter_state_busy:
  assumes "pm_mutex s"
  shows "\<exists>s'. enter_state env st s =
           Some (Returned (if fst (valid_state env st s) then - EBUSY else - ENODEV) s')
         \<and> pm_mutex s' \<and> suspend_stats s' = suspend_stats s
         \<and> set (new_calls s s') \<subseteq> {Ops_valid st}"
proof -
  obtain evs where evs: "trace (snd (valid_state env st s)) = trace s @ evs"
      "set (map fst evs) \<subseteq> {Ops_valid st}"
    using valid_state_trace by blast
  have "enter_state env st s =
      Some (Returned (if fst (valid_state env st s) then - EBUSY else - ENODEV)
        (snd (valid_state env st s)))"
    using assms by (simp add: enter_state_def split_beta mutex_trylock_def)
  moreover have "set (new_calls s (snd (valid_state env st s))) \<subseteq> {Ops_valid st}"
    using evs by (simp add: new_calls_append)
  ultimately show ?thesis using assms by simp
qed

text \<open>A second suspend to RAM on the machine with a driver.\<close>

theorem enter_state_busy_witness:
  "pm_mutex busy_driver_state \<and>
   retval (enter_state quiet_env PM_SUSPEND_MEM busy_driver_state) = Some (- EBUSY) \<and>
   calls_of (enter_state quiet_env PM_SUSPEND_MEM busy_driver_state) = [Ops_valid PM_SUSPEND_MEM]"
proof -
  have m: "pm_mutex busy_driver_state" by (simp add: busy_driver_state_def)
  have v: "fst (valid_state quiet_env PM_SUSPEND_MEM busy_driver_state)"
    by (simp add: valid_state_def busy_driver_state_def split_beta pm_suspend_consts)
  from enter_state_busy[OF m, of quiet_env PM_SUSPEND_MEM] v obtain s' where
    "enter_state quiet_env PM_SUSPEND_MEM busy_driver_state = Some (Returned (- EBUSY) s')"
    by auto
  then have r: "retval (enter_state quiet_env PM_SUSPEND_MEM busy_driver_state) = Some (- EBUSY)"
    by simp
  have c: "calls_of (enter_state quiet_env PM_SUSPEND_MEM busy_driver_state)
      = [Ops_valid PM_SUSPEND_MEM]"
    by (simp add: run_defs busy_driver_state_def pm_suspend_consts)
  from m r c show ?thesis by blast
qed

subsection \<open>C3: the test level ``devices'' stops the attempt after the devices\<close>

text \<open>
  C3 says that with \<^verbatim>\<open>pm_test_level == TEST_DEVICES\<close> a suspend to RAM returns a
  checkpoint-abort error. It returns 0: \<^verbatim>\<open>suspend_test\<close> answers 1 and the code jumps
  to \<^verbatim>\<open>Recover_platform\<close>, but \<^verbatim>\<open>error\<close> still holds the 0 that
  \<^verbatim>\<open>dpm_suspend_start\<close> returned, and \<^verbatim>\<open>pm_suspend\<close> counts a success.
\<close>

theorem test_devices_returns_success:
  "CONFIG_PM_DEBUG debug_env \<and> pm_test_level test_devices_state = TEST_DEVICES \<and>
   retval (pm_suspend debug_env PM_SUSPEND_MEM test_devices_state) = Some 0 \<and>
   counters (pm_suspend debug_env PM_SUSPEND_MEM test_devices_state) = Some (1, 0)"
  by (simp add: run_defs debug_env_def test_devices_state_def pm_suspend_consts)

text \<open>
  C3, amended. With \<^verbatim>\<open>CONFIG_PM_DEBUG\<close>, \<^verbatim>\<open>pm_test_level == TEST_DEVICES\<close>, a driver that
  accepts suspend to RAM and has an \<^verbatim>\<open>enter\<close> callback, the mutex free, and the steps
  before the checkpoint succeeding (the pre-suspend notification, the freezing of
  processes, the driver's \<^verbatim>\<open>begin\<close> and \<^verbatim>\<open>dpm_suspend_start\<close>): the attempt stops
  after the device-suspend step and the test delay, calls the driver's \<^verbatim>\<open>recover\<close> if
  it has one, resumes the devices, restarts tracing, resumes the console, calls the
  driver's \<^verbatim>\<open>end\<close> if it has one, runs the finish phase, and \<^verbatim>\<open>pm_suspend\<close> returns 0
  (success) and counts a success. No step of \<^verbatim>\<open>suspend_enter\<close> runs.
\<close>

theorem pm_suspend_test_devices:
  assumes dbg: "CONFIG_PM_DEBUG env" "pm_test_level s = TEST_DEVICES"
    and drv: "suspend_ops s = Some ops" "has_valid ops" "has_enter ops"
    and free: "\<not> pm_mutex s"
    and ok: "\<forall>t. ret env (Ops_valid PM_SUSPEND_MEM) t \<noteq> 0"
      "\<forall>t. ret env (Pm_notifier_call_chain PM_SUSPEND_PREPARE) t = 0"
      "\<forall>t. ret env Suspend_freeze_processes t = 0"
      "\<forall>t. ret env (Ops_begin PM_SUSPEND_MEM) t = 0"
      "\<forall>t. ret env Dpm_suspend_start t = 0"
  shows "\<exists>s'. pm_suspend env PM_SUSPEND_MEM s = Some (Returned 0 s') \<and>
     new_calls s s' =
       [Asus_otg_host_power_off, Getnstimeofday, Rtc_time_to_tm, Ops_valid PM_SUSPEND_MEM,
        Sys_sync, Pm_prepare_console, Pm_notifier_call_chain PM_SUSPEND_PREPARE,
        Suspend_freeze_processes, Pm_restrict_gfp_mask, Trace_machine_suspend PM_SUSPEND_MEM]
       @ (if has_begin ops then [Ops_begin PM_SUSPEND_MEM] else [])
       @ [Del_timer, Suspend_console, Ftrace_stop, Suspend_test_start, Dpm_suspend_start,
          Suspend_test_finish (STR ''suspend devices''), Mdelay 5000]
       @ (if has_recover ops then [Ops_recover] else [])
       @ [Suspend_test_start, Dpm_resume_end, Suspend_test_finish (STR ''resume devices''),
          Ftrace_start, Resume_console, Mod_timer]
       @ (if has_end ops then [Ops_end] else [])
       @ [Trace_machine_suspend_EXIT, Pm_restore_gfp_mask, Suspend_thaw_processes,
          Pm_notifier_call_chain PM_POST_SUSPEND, Pm_restore_console, Getnstimeofday,
          Rtc_time_to_tm] \<and>
     success (suspend_stats s') = success (suspend_stats s) + 1 \<and>
     fail (suspend_stats s') = fail (suspend_stats s) \<and> \<not> pm_mutex s'"
  using assms
  by (simp add: run_defs pm_suspend_consts new_calls_def new_entries_def)

text \<open>The machine with the full driver, under the test level.\<close>

theorem pm_suspend_test_devices_witness:
  "CONFIG_PM_DEBUG debug_env \<and> pm_test_level test_devices_state = TEST_DEVICES \<and>
   suspend_ops test_devices_state = Some full_ops \<and> \<not> pm_mutex test_devices_state \<and>
   retval (pm_suspend debug_env PM_SUSPEND_MEM test_devices_state) = Some 0 \<and>
   calls_of (pm_suspend debug_env PM_SUSPEND_MEM test_devices_state) =
       [Asus_otg_host_power_off, Getnstimeofday, Rtc_time_to_tm, Ops_valid PM_SUSPEND_MEM,
        Sys_sync, Pm_prepare_console, Pm_notifier_call_chain PM_SUSPEND_PREPARE,
        Suspend_freeze_processes, Pm_restrict_gfp_mask, Trace_machine_suspend PM_SUSPEND_MEM,
        Ops_begin PM_SUSPEND_MEM, Del_timer, Suspend_console, Ftrace_stop, Suspend_test_start,
        Dpm_suspend_start, Suspend_test_finish (STR ''suspend devices''), Mdelay 5000,
        Ops_recover, Suspend_test_start, Dpm_resume_end,
        Suspend_test_finish (STR ''resume devices''), Ftrace_start, Resume_console, Mod_timer,
        Ops_end, Trace_machine_suspend_EXIT, Pm_restore_gfp_mask, Suspend_thaw_processes,
        Pm_notifier_call_chain PM_POST_SUSPEND, Pm_restore_console, Getnstimeofday,
        Rtc_time_to_tm]"
proof -
  have h: "CONFIG_PM_DEBUG debug_env" "pm_test_level test_devices_state = TEST_DEVICES"
    "suspend_ops test_devices_state = Some full_ops" "has_valid full_ops" "has_enter full_ops"
    "\<not> pm_mutex test_devices_state"
    "\<forall>t. ret debug_env (Ops_valid PM_SUSPEND_MEM) t \<noteq> 0"
    "\<forall>t. ret debug_env (Pm_notifier_call_chain PM_SUSPEND_PREPARE) t = 0"
    "\<forall>t. ret debug_env Suspend_freeze_processes t = 0"
    "\<forall>t. ret debug_env (Ops_begin PM_SUSPEND_MEM) t = 0"
    "\<forall>t. ret debug_env Dpm_suspend_start t = 0"
    by (simp_all add: debug_env_def test_devices_state_def)
  have t: "trace test_devices_state = []" by (simp add: test_devices_state_def)
  from pm_suspend_test_devices[OF h] obtain s' where
    "pm_suspend debug_env PM_SUSPEND_MEM test_devices_state = Some (Returned 0 s')"
    "new_calls test_devices_state s' =
       [Asus_otg_host_power_off, Getnstimeofday, Rtc_time_to_tm, Ops_valid PM_SUSPEND_MEM,
        Sys_sync, Pm_prepare_console, Pm_notifier_call_chain PM_SUSPEND_PREPARE,
        Suspend_freeze_processes, Pm_restrict_gfp_mask, Trace_machine_suspend PM_SUSPEND_MEM]
       @ (if has_begin full_ops then [Ops_begin PM_SUSPEND_MEM] else [])
       @ [Del_timer, Suspend_console, Ftrace_stop, Suspend_test_start, Dpm_suspend_start,
          Suspend_test_finish (STR ''suspend devices''), Mdelay 5000]
       @ (if has_recover full_ops then [Ops_recover] else [])
       @ [Suspend_test_start, Dpm_resume_end, Suspend_test_finish (STR ''resume devices''),
          Ftrace_start, Resume_console, Mod_timer]
       @ (if has_end full_ops then [Ops_end] else [])
       @ [Trace_machine_suspend_EXIT, Pm_restore_gfp_mask, Suspend_thaw_processes,
          Pm_notifier_call_chain PM_POST_SUSPEND, Pm_restore_console, Getnstimeofday,
          Rtc_time_to_tm]"
    by blast
  then show ?thesis using h(1,2,3,6) t
    by (simp add: new_calls_def new_entries_def)
qed

subsection \<open>C8: a pending wakeup ends the attempt with success\<close>



subsection \<open>C9: the freeze flag is reset, and a wake after the reset is not lost\<close>




subsection \<open>C10: a state out of range is refused before anything is touched\<close>

text \<open>
  C10. For every state that is not strictly between \<^verbatim>\<open>PM_SUSPEND_ON\<close> and
  \<^verbatim>\<open>PM_SUSPEND_MAX\<close>, \<^verbatim>\<open>pm_suspend\<close> returns \<^verbatim>\<open>-EINVAL\<close> before it tries the mutex,
  syncs the filesystems, runs any phase or updates the statistics: the mutex, the
  statistics, the freeze flag and the history of the collaborators (the console among
  them) are as they were. The state returned is the state given, but for the line
  \<^verbatim>\<open>[PM] ++pm_suspend\<close> that the function logs on entry.
\<close>

theorem pm_suspend_rejects_out_of_range:
  assumes "st \<le> PM_SUSPEND_ON \<or> PM_SUSPEND_MAX \<le> st"
  shows "pm_suspend env st s =
     Some (Returned (- EINVAL) (s\<lparr>klog := klog s @ [STR ''[PM] ++pm_suspend'']\<rparr>))"
  using assms by (auto simp: pm_suspend_def printk_def)

text \<open>The state 7 is refused on the machine with a driver.\<close>

theorem pm_suspend_rejects_out_of_range_witness:
  "PM_SUSPEND_MAX \<le> 7 \<and>
   pm_suspend quiet_env 7 driver_state =
     Some (Returned (- EINVAL) (driver_state\<lparr>klog := klog driver_state @ [STR ''[PM] ++pm_suspend'']\<rparr>))"
  using pm_suspend_rejects_out_of_range[of 7 quiet_env driver_state]
  by (simp add: PM_SUSPEND_MAX_def)

subsection \<open>C2: one counter moves, by one, when the state is in range\<close>




subsection \<open>C6: unwinding after a failed device suspend\<close>




subsection \<open>C5: the retry loop\<close>

text \<open>
  C5 says that \<^verbatim>\<open>suspend_enter\<close> is invoked again exactly when the previous invocation
  returned success, no wakeup was pending, and the driver's \<^verbatim>\<open>suspend_again\<close> exists
  and returns true. It is not for a freeze: the registered driver has a
  \<^verbatim>\<open>suspend_again\<close> that answers true whenever asked, the round returns success with
  no wakeup pending, and the loop ends after that one round without asking, because the
  driver is only consulted for the states above freeze.
\<close>

theorem freeze_never_asks_suspend_again:
  "suspend_ops driver_state = Some full_ops \<and> has_suspend_again full_ops \<and>
   (\<forall>t. ret always_again_env Ops_suspend_again t = 1) \<and>
   retval (Some (suspend_enter always_again_env PM_SUSPEND_FREEZE False driver_state)) = Some (0, False) \<and>
   retval (suspend_enter_loop always_again_env PM_SUSPEND_FREEZE False driver_state) = Some 0 \<and>
   calls_of (suspend_enter_loop always_again_env PM_SUSPEND_FREEZE False driver_state) =
     [Dpm_suspend_end, Wait_event, Dpm_resume_start]"
  unfolding suspend_enter_loop_freeze
  by (simp add: run_defs always_again_env_def pm_suspend_consts)

text \<open>
  C5, amended. After a round of \<^verbatim>\<open>suspend_enter\<close> that returned, the loop invokes
  \<^verbatim>\<open>suspend_enter\<close> again exactly when the round returned success, no wakeup was
  pending, the state needs the driver (is above freeze), the driver's
  \<^verbatim>\<open>suspend_again\<close> exists and, asked then, returns true; otherwise the loop ends with
  the value of the round. No round of the loop runs the driver's \<^verbatim>\<open>begin\<close>, the
  console or trace quiesce, or the device suspend.
\<close>

theorem suspend_enter_loop_round:
  assumes run: "suspend_enter env st w s = Returned (error, wakeup) s1"
  shows "suspend_enter_loop env st w s =
     (if error = 0 \<and> \<not> wakeup \<and> need_suspend_ops st \<and>
         (\<exists>ops. suspend_ops s1 = Some ops \<and> has_suspend_again ops)
      then (if ret env Ops_suspend_again (trace s1) \<noteq> 0
            then suspend_enter_loop env st wakeup (snd (ext env Ops_suspend_again s1))
            else Some (Returned error (snd (ext env Ops_suspend_again s1))))
      else Some (Returned error s1)) \<and>
     (\<forall>e s'. suspend_enter_loop env st w s = Some (Returned e s') \<longrightarrow>
        filter outer_step (new_calls s s') = [])"
proof
  show "suspend_enter_loop env st w s =
     (if error = 0 \<and> \<not> wakeup \<and> need_suspend_ops st \<and>
         (\<exists>ops. suspend_ops s1 = Some ops \<and> has_suspend_again ops)
      then (if ret env Ops_suspend_again (trace s1) \<noteq> 0
            then suspend_enter_loop env st wakeup (snd (ext env Ops_suspend_again s1))
            else Some (Returned error (snd (ext env Ops_suspend_again s1))))
      else Some (Returned error s1))"
    using suspend_enter_has_driver[OF run]
    by (subst suspend_enter_loop.simps)
       (auto simp: run ops_has_def ext_def Let_def split_beta split: option.splits)
next
  show "\<forall>e s'. suspend_enter_loop env st w s = Some (Returned e s') \<longrightarrow>
        filter outer_step (new_calls s s') = []"
    by (auto simp: new_calls_def new_entries_def dest!: loop_calls)
qed

text \<open>
  A suspend to RAM with the full driver whose \<^verbatim>\<open>suspend_again\<close> answers true twice,
  then false: \<^verbatim>\<open>suspend_enter\<close> runs three times, the device suspend once.
\<close>

theorem suspend_enter_loop_round_witness:
  "retval (suspend_devices_and_enter again_env PM_SUSPEND_MEM driver_state) = Some 0 \<and>
   calls_of (suspend_devices_and_enter again_env PM_SUSPEND_MEM driver_state) =
     [Trace_machine_suspend PM_SUSPEND_MEM, Ops_begin PM_SUSPEND_MEM, Del_timer,
      Suspend_console, Ftrace_stop, Suspend_test_start, Dpm_suspend_start,
      Suspend_test_finish (STR ''suspend devices'')]
     @ round_calls @ [Ops_suspend_again]
     @ round_calls @ [Ops_suspend_again]
     @ round_calls @ [Ops_suspend_again]
     @ [Suspend_test_start, Dpm_resume_end, Suspend_test_finish (STR ''resume devices''),
        Ftrace_start, Resume_console, Mod_timer, Ops_end, Trace_machine_suspend_EXIT] \<and>
   count_list (calls_of (suspend_devices_and_enter again_env PM_SUSPEND_MEM driver_state))
     Ops_prepare = 3 \<and>
   count_list (calls_of (suspend_devices_and_enter again_env PM_SUSPEND_MEM driver_state))
     (Ops_enter PM_SUSPEND_MEM) = 3 \<and>
   count_list (calls_of (suspend_devices_and_enter again_env PM_SUSPEND_MEM driver_state))
     Dpm_suspend_start = 1"
proof -
  let ?env = again_env
  let ?s9 = "call ?env (Suspend_test_finish (STR ''suspend devices''))
    (snd (ext ?env Dpm_suspend_start
      (call ?env Suspend_test_start
        (call ?env Ftrace_stop
          (call ?env Suspend_console
            ((call ?env Del_timer
               (printk (STR ''[PM]unattended_timer: del_timer'')
                 (snd (ext ?env (Ops_begin PM_SUSPEND_MEM)
                   (call ?env (Trace_machine_suspend PM_SUSPEND_MEM) driver_state)))))
             \<lparr>pm_stay_unattended_period := 0\<rparr>))))))"
  let ?after = "\<lambda>e s. Resume_devices ?env PM_SUSPEND_MEM e (s\<lparr>pm_pwrcs_ret := 1\<rparr>)"
  have whole: "suspend_devices_and_enter ?env PM_SUSPEND_MEM driver_state =
      then_opt (suspend_enter_loop ?env PM_SUSPEND_MEM False ?s9) ?after"
    by (simp add: suspend_devices_and_enter_def suspend_devices_def ops_has_def
        need_suspend_ops_def pm_suspend_consts Let_def split_beta suspend_test_def)
  have o9: "suspend_ops ?s9 = Some full_ops" by simp
  have t9: "trace ?s9 =
      void [Trace_machine_suspend PM_SUSPEND_MEM, Ops_begin PM_SUSPEND_MEM, Del_timer,
        Suspend_console, Ftrace_stop, Suspend_test_start, Dpm_suspend_start,
        Suspend_test_finish (STR ''suspend devices'')]"
    by simp
  have need: "need_suspend_ops PM_SUSPEND_MEM"
    by (simp add: need_suspend_ops_def pm_suspend_consts)
  \<comment> \<open>first round: \<^verbatim>\<open>suspend_again\<close> answers true\<close>
  from again_round[OF o9] obtain s1 where
    r1: "suspend_enter ?env PM_SUSPEND_MEM False ?s9 = Returned (0, False) s1"
    and o1: "suspend_ops s1 = Some full_ops" and t1: "trace s1 = trace ?s9 @ void round_calls"
    by blast
  let ?s1 = "snd (ext ?env Ops_suspend_again s1)"
  have a1: "ret ?env Ops_suspend_again (trace s1) = 1"
    by (simp add: t1 t9 round_calls_def)
  from suspend_enter_loop_round[OF r1] need o1 a1
  have l1: "suspend_enter_loop ?env PM_SUSPEND_MEM False ?s9 =
      suspend_enter_loop ?env PM_SUSPEND_MEM False ?s1"
    by simp
  \<comment> \<open>second round: true again\<close>
  have o1': "suspend_ops ?s1 = Some full_ops" using o1 by simp
  from again_round[OF o1'] obtain s2 where
    r2: "suspend_enter ?env PM_SUSPEND_MEM False ?s1 = Returned (0, False) s2"
    and o2: "suspend_ops s2 = Some full_ops" and t2: "trace s2 = trace ?s1 @ void round_calls"
    by blast
  let ?s2 = "snd (ext ?env Ops_suspend_again s2)"
  have a2: "ret ?env Ops_suspend_again (trace s2) = 1"
    by (simp add: t2 t1 t9 round_calls_def)
  from suspend_enter_loop_round[OF r2] need o2 a2
  have l2: "suspend_enter_loop ?env PM_SUSPEND_MEM False ?s1 =
      suspend_enter_loop ?env PM_SUSPEND_MEM False ?s2"
    by simp
  \<comment> \<open>third round: false, the loop ends\<close>
  have o2': "suspend_ops ?s2 = Some full_ops" using o2 by simp
  from again_round[OF o2'] obtain s3 where
    r3: "suspend_enter ?env PM_SUSPEND_MEM False ?s2 = Returned (0, False) s3"
    and o3: "suspend_ops s3 = Some full_ops" and t3: "trace s3 = trace ?s2 @ void round_calls"
    by blast
  let ?s3 = "snd (ext ?env Ops_suspend_again s3)"
  have a3: "ret ?env Ops_suspend_again (trace s3) = 0"
    by (simp add: t3 t2 t1 t9 round_calls_def)
  from suspend_enter_loop_round[OF r3] need o3 a3
  have l3: "suspend_enter_loop ?env PM_SUSPEND_MEM False ?s2 = Some (Returned 0 ?s3)"
    by simp
  have o3': "suspend_ops ?s3 = Some full_ops" using o3 by simp
  \<comment> \<open>the way out\<close>
  have out: "suspend_devices_and_enter ?env PM_SUSPEND_MEM driver_state =
      Some (?after 0 ?s3)"
    by (simp add: whole l1 l2 l3 then_opt_def obind_def)
  have "\<exists>s'. ?after 0 ?s3 = Returned 0 s' \<and>
      trace s' = trace ?s3 @ void [Suspend_test_start, Dpm_resume_end,
        Suspend_test_finish (STR ''resume devices''), Ftrace_start, Resume_console, Mod_timer,
        Ops_end, Trace_machine_suspend_EXIT]"
    using o3 need
    by (simp add: Resume_devices_def Close_def ops_has_def obind_def Let_def)
  then obtain s' where fin: "?after 0 ?s3 = Returned 0 s'"
    and t': "trace s' = trace ?s3 @ void [Suspend_test_start, Dpm_resume_end,
        Suspend_test_finish (STR ''resume devices''), Ftrace_start, Resume_console, Mod_timer,
        Ops_end, Trace_machine_suspend_EXIT]"
    by blast
  have rv: "retval (suspend_devices_and_enter ?env PM_SUSPEND_MEM driver_state) = Some 0"
    by (simp add: out fin)
  have cs: "calls_of (suspend_devices_and_enter ?env PM_SUSPEND_MEM driver_state) =
     [Trace_machine_suspend PM_SUSPEND_MEM, Ops_begin PM_SUSPEND_MEM, Del_timer,
      Suspend_console, Ftrace_stop, Suspend_test_start, Dpm_suspend_start,
      Suspend_test_finish (STR ''suspend devices'')]
     @ round_calls @ [Ops_suspend_again]
     @ round_calls @ [Ops_suspend_again]
     @ round_calls @ [Ops_suspend_again]
     @ [Suspend_test_start, Dpm_resume_end, Suspend_test_finish (STR ''resume devices''),
        Ftrace_start, Resume_console, Mod_timer, Ops_end, Trace_machine_suspend_EXIT]"
    by (simp add: out fin t' t3 t2 t1 t9 round_calls_def)
  have n: "count_list (calls_of (suspend_devices_and_enter ?env PM_SUSPEND_MEM driver_state))
       Ops_prepare = 3"
    "count_list (calls_of (suspend_devices_and_enter ?env PM_SUSPEND_MEM driver_state))
       (Ops_enter PM_SUSPEND_MEM) = 3"
    "count_list (calls_of (suspend_devices_and_enter ?env PM_SUSPEND_MEM driver_state))
       Dpm_suspend_start = 1"
    unfolding cs by (simp_all add: round_calls_def)
  from rv cs n show ?thesis by blast
qed

end
